theory Spec2Isabelle
  imports Main
begin

section \<open>C integers\<close>

text \<open>
  The header works on \<open>int\<close> (32 bits, signed), \<open>size_t\<close> (unsigned) and \<open>uint8_t\<close>
  values. An \<open>int\<close> is modelled as a mathematical integer in the range
  \<open>INT_MIN .. INT_MAX\<close>; \<open>size_t\<close> and \<open>uint8_t\<close> values are natural numbers.
  Signed overflow and a remainder or division by zero are undefined behaviour in C: the
  model returns \<open>Undefined\<close> there instead of a value. A conversion of an out-of-range
  value to \<open>int\<close> keeps the low 32 bits (\<open>to_int\<close>); a conversion of an \<open>int\<close> to
  \<open>size_t\<close> is taken modulo \<open>2 ^ 64\<close> (\<open>to_size_t\<close>). Where a sum or difference is
  computed in \<open>size_t\<close> and stored in an \<open>int\<close>, the low 32 bits of the result are those
  of the exact sum or difference, so \<open>to_int\<close> is applied to it directly. The third
  outcome, \<open>Out_of_fuel\<close>, is for the one loop whose number of passes the header does not
  bound: the model stops it after a given number of passes.
\<close>

datatype 'a outcome = Returns 'a | Undefined | Out_of_fuel

definition INT_MIN :: int where
  "INT_MIN = - 2147483648"

definition INT_MAX :: int where
  "INT_MAX = 2147483647"

definition is_int :: "int \<Rightarrow> bool" where
  "is_int x = (INT_MIN \<le> x \<and> x \<le> INT_MAX)"

definition to_int :: "int \<Rightarrow> int" where
  "to_int x = (x + 2147483648) mod 4294967296 - 2147483648"

definition to_size_t :: "int \<Rightarrow> int" where
  "to_size_t x = x mod 18446744073709551616"

text \<open>C99 division truncates towards zero; \<open>a % b\<close> is \<open>a - (a / b) * b\<close>.\<close>

definition c_div :: "int \<Rightarrow> int \<Rightarrow> int" where
  "c_div a b = sgn a * sgn b * (\<bar>a\<bar> div \<bar>b\<bar>)"

definition c_mod :: "int \<Rightarrow> int \<Rightarrow> int" where
  "c_mod a b = a - c_div a b * b"

section \<open>The buffer manager behind \<open>ubuf_control\<close>\<close>

text \<open>
  \<open>ubuf_pic.h\<close> reaches the storage through \<open>ubuf_alloc\<close>, \<open>ubuf_free\<close> and the
  commands of \<open>ubuf_control\<close>, all declared in \<open>upipe/ubuf.h\<close>. They are a parameter of
  the model: a record of operations over a manager state \<open>'s\<close>, which stands for the
  manager that allocates as well as for the managers of the buffers. A buffer handle
  (\<open>struct ubuf *\<close>) and a mapped byte pointer (\<open>uint8_t *\<close>) are addresses. The
  queries (the size of a picture, the size of a plane, the next plane) read the state
  and do not change it. A query answers \<open>None\<close> where the C call returns \<open>false\<close>; the
  plane iterator answers \<open>Some None\<close> at the end of the planes (\<open>*chroma_p = NULL\<close>).
  The size of a picture is \<open>(hsize, vsize, macropixel)\<close>, the size of a plane
  \<open>(stride, hsub, vsub, macropixel_size)\<close>.
\<close>

type_synonym chroma = string
type_synonym ubuf = nat
type_synonym addr = nat

record 's ubuf_mgr =
  alloc_picture :: "int \<Rightarrow> int \<Rightarrow> 's \<Rightarrow> ubuf option \<times> 's"
  free_ubuf :: "ubuf \<Rightarrow> 's \<Rightarrow> 's"
  size_picture :: "ubuf \<Rightarrow> 's \<Rightarrow> (nat \<times> nat \<times> nat) option"
  iterate_picture_plane :: "ubuf \<Rightarrow> chroma option \<Rightarrow> 's \<Rightarrow> chroma option option"
  size_picture_plane :: "ubuf \<Rightarrow> chroma \<Rightarrow> 's \<Rightarrow> (nat \<times> nat \<times> nat \<times> nat) option"
  read_picture_plane ::
    "ubuf \<Rightarrow> chroma \<Rightarrow> int \<Rightarrow> int \<Rightarrow> int \<Rightarrow> int \<Rightarrow> 's \<Rightarrow> addr option \<times> 's"
  write_picture_plane ::
    "ubuf \<Rightarrow> chroma \<Rightarrow> int \<Rightarrow> int \<Rightarrow> int \<Rightarrow> int \<Rightarrow> 's \<Rightarrow> addr option \<times> 's"
  unmap_picture_plane ::
    "ubuf \<Rightarrow> chroma \<Rightarrow> int \<Rightarrow> int \<Rightarrow> int \<Rightarrow> int \<Rightarrow> 's \<Rightarrow> bool \<times> 's"
  resize_picture :: "ubuf \<Rightarrow> int \<Rightarrow> int \<Rightarrow> int \<Rightarrow> int \<Rightarrow> 's \<Rightarrow> bool \<times> 's"

text \<open>
  What a routine does to its collaborators is recorded as a list of events, in the order
  of the calls: the state-changing calls with their arguments and answers, the answers
  of the plane iterator, and every \<open>memcpy\<close>.
\<close>

datatype event =
    Ev_alloc int int "ubuf option"
  | Ev_free ubuf
  | Ev_iterate ubuf "chroma option option"
  | Ev_write ubuf chroma int int int int "addr option"
  | Ev_read ubuf chroma int int int int "addr option"
  | Ev_unmap ubuf chroma int int int int bool
  | Ev_memcpy addr addr nat
  | Ev_resize ubuf int int int int bool

section \<open>Sizes of a picture and of a plane\<close>

definition ubuf_pic_alloc :: "'s ubuf_mgr \<Rightarrow> int \<Rightarrow> int \<Rightarrow> 's \<Rightarrow> ubuf option \<times> 's" where
  "ubuf_pic_alloc mgr hsize vsize s = alloc_picture mgr hsize vsize s"

definition ubuf_pic_size :: "'s ubuf_mgr \<Rightarrow> 's \<Rightarrow> ubuf \<Rightarrow> (nat \<times> nat \<times> nat) option" where
  "ubuf_pic_size mgr s ubuf = size_picture mgr ubuf s"

definition ubuf_pic_plane_iterate ::
  "'s ubuf_mgr \<Rightarrow> 's \<Rightarrow> ubuf \<Rightarrow> chroma option \<Rightarrow> chroma option option" where
  "ubuf_pic_plane_iterate mgr s ubuf chroma = iterate_picture_plane mgr ubuf chroma s"

definition ubuf_pic_plane_size ::
  "'s ubuf_mgr \<Rightarrow> 's \<Rightarrow> ubuf \<Rightarrow> chroma \<Rightarrow> (nat \<times> nat \<times> nat \<times> nat) option" where
  "ubuf_pic_plane_size mgr s ubuf chroma = size_picture_plane mgr ubuf chroma s"

section \<open>Checking an offset and a size\<close>

text \<open>
  Lines 145 to 152 of \<open>ubuf_pic_plane_check_offset\<close>, once per axis: a negative offset
  has the extent added (\<open>*hoffset_p += ubuf_hsize\<close>, computed in \<open>size_t\<close> and stored
  in an \<open>int\<close>), and a size of \<open>-1\<close> becomes the extent minus the offset.
\<close>

definition abs_offset :: "nat \<Rightarrow> int \<Rightarrow> int" where
  "abs_offset ubuf_size offset =
     (if offset < 0 then to_int (offset + int ubuf_size) else offset)"

definition abs_size :: "nat \<Rightarrow> int \<Rightarrow> int \<Rightarrow> int" where
  "abs_size ubuf_size offset sz =
     (if sz = - 1 then to_int (int ubuf_size - offset) else sz)"

text \<open>
  The result is the returned \<open>bool\<close> with the values left in \<open>*hoffset_p\<close>,
  \<open>*voffset_p\<close>, \<open>*hsize_p\<close> and \<open>*vsize_p\<close>. The operands of each \<open>||\<close> are evaluated
  from left to right and only as far as needed, so a sum is computed only when the
  tests before it are false.
\<close>

definition ubuf_pic_plane_check_offset ::
  "'s ubuf_mgr \<Rightarrow> 's \<Rightarrow> ubuf \<Rightarrow> chroma \<Rightarrow> int \<Rightarrow> int \<Rightarrow> int \<Rightarrow> int \<Rightarrow>
     (bool \<times> int \<times> int \<times> int \<times> int) outcome" where
  "ubuf_pic_plane_check_offset mgr s ubuf chroma hoffset voffset hsize vsize =
     (case ubuf_pic_size mgr s ubuf of
        None \<Rightarrow> Returns (False, hoffset, voffset, hsize, vsize)
      | Some (ubuf_hsize, ubuf_vsize, macropixel) \<Rightarrow>
          if hoffset > to_int (int ubuf_hsize) then
            Returns (False, hoffset, voffset, hsize, vsize)
          else if voffset > to_int (int ubuf_vsize) then
            Returns (False, hoffset, voffset, hsize, vsize)
          else if is_int (hoffset + hsize) then
            if hoffset + hsize > to_int (int ubuf_hsize) then
              Returns (False, hoffset, voffset, hsize, vsize)
            else if is_int (voffset + vsize) then
              if voffset + vsize > to_int (int ubuf_vsize) then
                Returns (False, hoffset, voffset, hsize, vsize)
              else
                let hoffset = abs_offset ubuf_hsize hoffset;
                    voffset = abs_offset ubuf_vsize voffset;
                    hsize = abs_size ubuf_hsize hoffset hsize;
                    vsize = abs_size ubuf_vsize voffset vsize
                in
                  if macropixel = 0 then Undefined
                  else if c_mod hoffset (int macropixel) = 0
                        \<and> c_mod hsize (int macropixel) = 0 then
                    (case ubuf_pic_plane_size mgr s ubuf chroma of
                       None \<Rightarrow> Returns (False, hoffset, voffset, hsize, vsize)
                     | Some (stride, hsub, vsub, macropixel_size) \<Rightarrow>
                         if hsub = 0 then Undefined
                         else if c_mod hoffset (int hsub) = 0 \<and> c_mod hsize (int hsub) = 0 then
                           if vsub = 0 then Undefined
                           else if c_mod voffset (int vsub) = 0
                                 \<and> c_mod vsize (int vsub) = 0 then
                             Returns (True, hoffset, voffset, hsize, vsize)
                           else Returns (False, hoffset, voffset, hsize, vsize)
                         else Returns (False, hoffset, voffset, hsize, vsize))
                  else Returns (False, hoffset, voffset, hsize, vsize)
            else Undefined
          else Undefined)"

text \<open>
  What a caller learns from a check: whether the parameters were accepted, and if so the
  absolute region. After a refusal the caller drops its parameters, so two refusals are
  the same answer whatever was left in them.
\<close>

definition accepted ::
  "(bool \<times> int \<times> int \<times> int \<times> int) outcome \<Rightarrow> (int \<times> int \<times> int \<times> int) option outcome" where
  "accepted r =
     (case r of
        Returns (ok, region) \<Rightarrow> Returns (if ok then Some region else None)
      | Undefined \<Rightarrow> Undefined
      | Out_of_fuel \<Rightarrow> Out_of_fuel)"

section \<open>Mapping and unmapping a plane\<close>

text \<open>
  Each accessor checks and converts its own copies of the offsets and sizes and hands
  the converted values to the manager. The result is the mapped address (\<open>None\<close> where
  the C function returns \<open>false\<close>), the manager state and the events.
\<close>

definition ubuf_pic_plane_read ::
  "'s ubuf_mgr \<Rightarrow> ubuf \<Rightarrow> chroma \<Rightarrow> int \<Rightarrow> int \<Rightarrow> int \<Rightarrow> int \<Rightarrow> 's \<Rightarrow>
     (addr option \<times> 's \<times> event list) outcome" where
  "ubuf_pic_plane_read mgr ubuf chroma hoffset voffset hsize vsize s =
     (case ubuf_pic_plane_check_offset mgr s ubuf chroma hoffset voffset hsize vsize of
        Returns (ok, hoffset, voffset, hsize, vsize) \<Rightarrow>
          if ok then
            (case read_picture_plane mgr ubuf chroma hoffset voffset hsize vsize s of
               (buffer, s') \<Rightarrow>
                 Returns (buffer, s', [Ev_read ubuf chroma hoffset voffset hsize vsize buffer]))
          else Returns (None, s, [])
      | Undefined \<Rightarrow> Undefined
      | Out_of_fuel \<Rightarrow> Out_of_fuel)"

definition ubuf_pic_plane_write ::
  "'s ubuf_mgr \<Rightarrow> ubuf \<Rightarrow> chroma \<Rightarrow> int \<Rightarrow> int \<Rightarrow> int \<Rightarrow> int \<Rightarrow> 's \<Rightarrow>
     (addr option \<times> 's \<times> event list) outcome" where
  "ubuf_pic_plane_write mgr ubuf chroma hoffset voffset hsize vsize s =
     (case ubuf_pic_plane_check_offset mgr s ubuf chroma hoffset voffset hsize vsize of
        Returns (ok, hoffset, voffset, hsize, vsize) \<Rightarrow>
          if ok then
            (case write_picture_plane mgr ubuf chroma hoffset voffset hsize vsize s of
               (buffer, s') \<Rightarrow>
                 Returns (buffer, s', [Ev_write ubuf chroma hoffset voffset hsize vsize buffer]))
          else Returns (None, s, [])
      | Undefined \<Rightarrow> Undefined
      | Out_of_fuel \<Rightarrow> Out_of_fuel)"

definition ubuf_pic_plane_unmap ::
  "'s ubuf_mgr \<Rightarrow> ubuf \<Rightarrow> chroma \<Rightarrow> int \<Rightarrow> int \<Rightarrow> int \<Rightarrow> int \<Rightarrow> 's \<Rightarrow>
     (bool \<times> 's \<times> event list) outcome" where
  "ubuf_pic_plane_unmap mgr ubuf chroma hoffset voffset hsize vsize s =
     (case ubuf_pic_plane_check_offset mgr s ubuf chroma hoffset voffset hsize vsize of
        Returns (ok, hoffset, voffset, hsize, vsize) \<Rightarrow>
          if ok then
            (case unmap_picture_plane mgr ubuf chroma hoffset voffset hsize vsize s of
               (ret, s') \<Rightarrow>
                 Returns (ret, s', [Ev_unmap ubuf chroma hoffset voffset hsize vsize ret]))
          else Returns (False, s, [])
      | Undefined \<Rightarrow> Undefined
      | Out_of_fuel \<Rightarrow> Out_of_fuel)"

section \<open>Checking a resize\<close>

text \<open>
  The result is the returned \<open>bool\<close>, the values left in \<open>*hskip_p\<close>, \<open>*vskip_p\<close>,
  \<open>*new_hsize_p\<close> and \<open>*new_vsize_p\<close>, and on success the three values written through
  \<open>ubuf_hsize_p\<close>, \<open>ubuf_vsize_p\<close> and \<open>macropixel_p\<close>. The negation \<open>-*hskip_p\<close> is
  undefined for \<open>INT_MIN\<close>; in the alignment test one of the three remainders is always
  computed, so a macropixel of zero is undefined behaviour.
\<close>

definition ubuf_pic_check_resize ::
  "'s ubuf_mgr \<Rightarrow> 's \<Rightarrow> ubuf \<Rightarrow> int \<Rightarrow> int \<Rightarrow> int \<Rightarrow> int \<Rightarrow>
     (bool \<times> int \<times> int \<times> int \<times> int \<times> (nat \<times> nat \<times> nat) option) outcome" where
  "ubuf_pic_check_resize mgr s ubuf hskip vskip new_hsize new_vsize =
     (case ubuf_pic_size mgr s ubuf of
        None \<Rightarrow> Returns (False, hskip, vskip, new_hsize, new_vsize, None)
      | Some (ubuf_hsize, ubuf_vsize, macropixel) \<Rightarrow>
          if hskip > to_int (int ubuf_hsize) then
            Returns (False, hskip, vskip, new_hsize, new_vsize, None)
          else if vskip > to_int (int ubuf_vsize) then
            Returns (False, hskip, vskip, new_hsize, new_vsize, None)
          else
            let new_hsize = abs_size ubuf_hsize hskip new_hsize;
                new_vsize = abs_size ubuf_vsize vskip new_vsize
            in
              if is_int (- hskip) then
                if new_hsize < - hskip then
                  Returns (False, hskip, vskip, new_hsize, new_vsize, None)
                else if is_int (- vskip) then
                  if new_vsize < - vskip then
                    Returns (False, hskip, vskip, new_hsize, new_vsize, None)
                  else if macropixel = 0 then Undefined
                  else if (hskip < 0 \<and> c_mod (- hskip) (int macropixel) \<noteq> 0)
                        \<or> (hskip > 0 \<and> c_mod hskip (int macropixel) \<noteq> 0)
                        \<or> c_mod new_hsize (int macropixel) \<noteq> 0 then
                    Returns (False, hskip, vskip, new_hsize, new_vsize, None)
                  else
                    Returns (True, hskip, vskip, new_hsize, new_vsize,
                             Some (ubuf_hsize, ubuf_vsize, macropixel))
                else Undefined
              else Undefined)"

section \<open>Resizing in place\<close>

definition ubuf_pic_resize ::
  "'s ubuf_mgr \<Rightarrow> ubuf \<Rightarrow> int \<Rightarrow> int \<Rightarrow> int \<Rightarrow> int \<Rightarrow> 's \<Rightarrow>
     (bool \<times> 's \<times> event list) outcome" where
  "ubuf_pic_resize mgr ubuf hskip vskip new_hsize new_vsize s =
     (case ubuf_pic_check_resize mgr s ubuf hskip vskip new_hsize new_vsize of
        Returns (ok, hskip, vskip, new_hsize, new_vsize, sizes) \<Rightarrow>
          if ok then
            (case resize_picture mgr ubuf hskip vskip new_hsize new_vsize s of
               (ret, s') \<Rightarrow>
                 Returns (ret, s', [Ev_resize ubuf hskip vskip new_hsize new_vsize ret]))
          else Returns (False, s, [])
      | Undefined \<Rightarrow> Undefined
      | Out_of_fuel \<Rightarrow> Out_of_fuel)"

section \<open>Copying to a new buffer\<close>

text \<open>
  Lines 367 to 378 (and 379 to 389 for the other axis) of \<open>ubuf_pic_copy\<close>: where the
  destination and the source start, and how much is extracted. The comparison is made
  in \<open>size_t\<close>, because \<open>ubuf_hsize\<close> is a \<open>size_t\<close>: both operands are converted, and
  the chosen value is stored in an \<open>int\<close>. The code runs only after the resize check
  has accepted the parameters, so the skip is above \<open>INT_MIN\<close> and the new size is at
  least minus the skip: neither \<open>-hskip\<close> nor \<open>new_hsize - extract_hoffset\<close> overflows.
\<close>

definition extract_offset :: "int \<Rightarrow> int" where
  "extract_offset skip = (if skip < 0 then - skip else 0)"

definition extract_skip :: "int \<Rightarrow> int" where
  "extract_skip skip = (if skip < 0 then 0 else skip)"

definition extract_size :: "int \<Rightarrow> int \<Rightarrow> nat \<Rightarrow> int" where
  "extract_size skip new_size ubuf_size =
     (if to_size_t (new_size - extract_offset skip)
           \<le> to_size_t (int ubuf_size - extract_skip skip)
      then to_int (to_size_t (new_size - extract_offset skip))
      else to_int (to_size_t (int ubuf_size - extract_skip skip)))"

text \<open>
  The inner loop: \<open>plane_vsize\<close> calls of \<open>memcpy\<close>, each of \<open>plane_hsize\<close> octets, the
  destination pointer advanced by \<open>new_stride\<close> and the source pointer by \<open>stride\<close>
  after each.
\<close>

fun copy_lines :: "nat \<Rightarrow> addr \<Rightarrow> addr \<Rightarrow> nat \<Rightarrow> nat \<Rightarrow> nat \<Rightarrow> event list" where
  "copy_lines 0 new_buffer buffer new_stride stride plane_hsize = []"
| "copy_lines (Suc n) new_buffer buffer new_stride stride plane_hsize =
     Ev_memcpy new_buffer buffer plane_hsize
       # copy_lines n (new_buffer + new_stride) (buffer + stride) new_stride stride plane_hsize"

text \<open>
  The geometry computed before the loop: \<open>extract_hoffset\<close>, \<open>extract_voffset\<close>,
  \<open>extract_hskip\<close>, \<open>extract_vskip\<close>, \<open>extract_hsize\<close> and \<open>extract_vsize\<close>.
\<close>

record extract_geom =
  ex_hoffset :: int
  ex_voffset :: int
  ex_hskip :: int
  ex_vskip :: int
  ex_hsize :: int
  ex_vsize :: int

text \<open>
  One pass of the body of the \<open>while\<close> loop, for the plane \<open>chroma\<close>. The \<open>bool\<close> is
  \<open>False\<close> where the C code jumps to \<open>ubuf_pic_copy_err\<close>. A division by zero, an
  overflow of the product and a \<open>memcpy\<close> of a negative length are undefined behaviour.
\<close>

definition copy_plane ::
  "'s ubuf_mgr \<Rightarrow> ubuf \<Rightarrow> ubuf \<Rightarrow> nat \<Rightarrow> extract_geom \<Rightarrow> chroma \<Rightarrow> 's \<Rightarrow>
     (bool \<times> 's \<times> event list) outcome" where
  "copy_plane mgr ubuf new_ubuf macropixel ex chroma s =
     (case ubuf_pic_plane_size mgr s ubuf chroma of
        None \<Rightarrow> Returns (False, s, [])
      | Some (stride, hsub, vsub, macropixel_size) \<Rightarrow>
     (case ubuf_pic_plane_size mgr s new_ubuf chroma of
        None \<Rightarrow> Returns (False, s, [])
      | Some (new_stride, new_hsub, new_vsub, new_macropixel_size) \<Rightarrow>
     if hsub = new_hsub \<and> vsub = new_vsub \<and> macropixel_size = new_macropixel_size then
     (case ubuf_pic_plane_write mgr new_ubuf chroma
             (ex_hoffset ex) (ex_voffset ex) (ex_hsize ex) (ex_vsize ex) s of
        Undefined \<Rightarrow> Undefined
      | Out_of_fuel \<Rightarrow> Out_of_fuel
      | Returns (None, s1, ev1) \<Rightarrow> Returns (False, s1, ev1)
      | Returns (Some new_buffer, s1, ev1) \<Rightarrow>
     (case ubuf_pic_plane_read mgr ubuf chroma
             (ex_hskip ex) (ex_vskip ex) (ex_hsize ex) (ex_vsize ex) s1 of
        Undefined \<Rightarrow> Undefined
      | Out_of_fuel \<Rightarrow> Out_of_fuel
      | Returns (None, s2, ev2) \<Rightarrow>
          (case ubuf_pic_plane_unmap mgr new_ubuf chroma
                  (ex_hoffset ex) (ex_voffset ex) (ex_hsize ex) (ex_vsize ex) s2 of
             Undefined \<Rightarrow> Undefined
           | Out_of_fuel \<Rightarrow> Out_of_fuel
           | Returns (ret, s3, ev3) \<Rightarrow> Returns (False, s3, ev1 @ ev2 @ ev3))
      | Returns (Some buffer, s2, ev2) \<Rightarrow>
     if hsub = 0 then Undefined
     else if macropixel = 0 then Undefined
     else if vsub = 0 then Undefined
     else if is_int (c_div (c_div (ex_hsize ex) (int hsub)) (int macropixel)
                      * int macropixel_size) then
       let plane_hsize = c_div (c_div (ex_hsize ex) (int hsub)) (int macropixel)
                           * int macropixel_size;
           plane_vsize = c_div (ex_vsize ex) (int vsub)
       in
         if 0 < plane_vsize \<and> plane_hsize < 0 then Undefined
         else
           (case ubuf_pic_plane_unmap mgr new_ubuf chroma
                   (ex_hoffset ex) (ex_voffset ex) (ex_hsize ex) (ex_vsize ex) s2 of
              Undefined \<Rightarrow> Undefined
            | Out_of_fuel \<Rightarrow> Out_of_fuel
            | Returns (ret, s3, ev3) \<Rightarrow>
           (case ubuf_pic_plane_unmap mgr ubuf chroma
                   (ex_hskip ex) (ex_vskip ex) (ex_hsize ex) (ex_vsize ex) s3 of
              Undefined \<Rightarrow> Undefined
            | Out_of_fuel \<Rightarrow> Out_of_fuel
            | Returns (ret2, s4, ev4) \<Rightarrow>
                Returns (ret2 \<and> ret, s4,
                  ev1 @ ev2
                  @ copy_lines (nat plane_vsize) new_buffer buffer new_stride stride
                      (nat plane_hsize)
                  @ ev3 @ ev4)))
     else Undefined))
     else Returns (False, s, [])))"

text \<open>
  The \<open>while\<close> loop. It ends when \<open>ubuf_pic_plane_iterate\<close> returns \<open>false\<close> or leaves
  \<open>NULL\<close> in \<open>chroma\<close>; in both cases the code after the loop runs, which returns the
  new buffer. The first argument bounds the number of calls of the iterator: a manager
  could go on naming planes for ever.
\<close>

fun copy_planes ::
  "nat \<Rightarrow> 's ubuf_mgr \<Rightarrow> ubuf \<Rightarrow> ubuf \<Rightarrow> nat \<Rightarrow> extract_geom \<Rightarrow> chroma option \<Rightarrow> 's \<Rightarrow>
     (bool \<times> 's \<times> event list) outcome" where
  "copy_planes 0 mgr ubuf new_ubuf macropixel ex chroma s = Out_of_fuel"
| "copy_planes (Suc fuel) mgr ubuf new_ubuf macropixel ex chroma s =
     (case ubuf_pic_plane_iterate mgr s ubuf chroma of
        None \<Rightarrow> Returns (True, s, [Ev_iterate ubuf None])
      | Some None \<Rightarrow> Returns (True, s, [Ev_iterate ubuf (Some None)])
      | Some (Some c) \<Rightarrow>
          (case copy_plane mgr ubuf new_ubuf macropixel ex c s of
             Undefined \<Rightarrow> Undefined
           | Out_of_fuel \<Rightarrow> Out_of_fuel
           | Returns (ok, s1, ev1) \<Rightarrow>
               if ok then
                 (case copy_planes fuel mgr ubuf new_ubuf macropixel ex (Some c) s1 of
                    Undefined \<Rightarrow> Undefined
                  | Out_of_fuel \<Rightarrow> Out_of_fuel
                  | Returns (ok2, s2, ev2) \<Rightarrow>
                      Returns (ok2, s2, Ev_iterate ubuf (Some (Some c)) # ev1 @ ev2))
               else Returns (False, s1, Ev_iterate ubuf (Some (Some c)) # ev1)))"

text \<open>
  \<open>ubuf_pic_copy\<close>: the returned pointer (\<open>None\<close> for \<open>NULL\<close>), the manager state and
  the events.
\<close>

definition ubuf_pic_copy ::
  "nat \<Rightarrow> 's ubuf_mgr \<Rightarrow> ubuf \<Rightarrow> int \<Rightarrow> int \<Rightarrow> int \<Rightarrow> int \<Rightarrow> 's \<Rightarrow>
     (ubuf option \<times> 's \<times> event list) outcome" where
  "ubuf_pic_copy fuel mgr ubuf hskip vskip new_hsize new_vsize s =
     (case ubuf_pic_check_resize mgr s ubuf hskip vskip new_hsize new_vsize of
        Undefined \<Rightarrow> Undefined
      | Out_of_fuel \<Rightarrow> Out_of_fuel
      | Returns (ok, hskip, vskip, new_hsize, new_vsize, sizes) \<Rightarrow>
     (case sizes of
        None \<Rightarrow> Returns (None, s, [])
      | Some (ubuf_hsize, ubuf_vsize, macropixel) \<Rightarrow>
     (case ubuf_pic_alloc mgr new_hsize new_vsize s of
        (None, s1) \<Rightarrow> Returns (None, s1, [Ev_alloc new_hsize new_vsize None])
      | (Some new_ubuf, s1) \<Rightarrow>
     (case ubuf_pic_size mgr s1 new_ubuf of
        None \<Rightarrow>
          Returns (None, free_ubuf mgr new_ubuf s1,
            [Ev_alloc new_hsize new_vsize (Some new_ubuf), Ev_free new_ubuf])
      | Some (new_ubuf_hsize, new_ubuf_vsize, new_macropixel) \<Rightarrow>
     if new_macropixel = macropixel then
       (case copy_planes fuel mgr ubuf new_ubuf macropixel
               \<lparr>ex_hoffset = extract_offset hskip, ex_voffset = extract_offset vskip,
                ex_hskip = extract_skip hskip, ex_vskip = extract_skip vskip,
                ex_hsize = extract_size hskip new_hsize ubuf_hsize,
                ex_vsize = extract_size vskip new_vsize ubuf_vsize\<rparr>
               None s1 of
          Undefined \<Rightarrow> Undefined
        | Out_of_fuel \<Rightarrow> Out_of_fuel
        | Returns (ok, s2, ev) \<Rightarrow>
            if ok then
              Returns (Some new_ubuf, s2, Ev_alloc new_hsize new_vsize (Some new_ubuf) # ev)
            else
              Returns (None, free_ubuf mgr new_ubuf s2,
                Ev_alloc new_hsize new_vsize (Some new_ubuf) # ev @ [Ev_free new_ubuf]))
     else
       Returns (None, free_ubuf mgr new_ubuf s1,
         [Ev_alloc new_hsize new_vsize (Some new_ubuf), Ev_free new_ubuf])))))"

section \<open>Replacing a buffer by its copy\<close>

text \<open>
  \<open>ubuf_pic_replace\<close>: the returned \<open>bool\<close>, the pointer left in \<open>*ubuf_p\<close>, the
  manager state and the events.
\<close>

definition ubuf_pic_replace ::
  "nat \<Rightarrow> 's ubuf_mgr \<Rightarrow> ubuf \<Rightarrow> int \<Rightarrow> int \<Rightarrow> int \<Rightarrow> int \<Rightarrow> 's \<Rightarrow>
     (bool \<times> ubuf \<times> 's \<times> event list) outcome" where
  "ubuf_pic_replace fuel mgr ubuf hskip vskip new_hsize new_vsize s =
     (case ubuf_pic_copy fuel mgr ubuf hskip vskip new_hsize new_vsize s of
        Undefined \<Rightarrow> Undefined
      | Out_of_fuel \<Rightarrow> Out_of_fuel
      | Returns (None, s', ev) \<Rightarrow> Returns (False, ubuf, s', ev)
      | Returns (Some new_ubuf, s', ev) \<Rightarrow>
          Returns (True, new_ubuf, free_ubuf mgr ubuf s', ev @ [Ev_free ubuf]))"

section \<open>What a copy is expected to do\<close>

text \<open>
  The overlap of source and destination in the words of the specification: per axis,
  the destination starts at \<open>-skip\<close> and the source at 0 when the skip is negative,
  otherwise the destination starts at 0 and the source at the skip; the extent is the
  minimum of what is left of the new extent and of the source extent.
\<close>

definition overlap :: "int \<Rightarrow> int \<Rightarrow> int \<Rightarrow> int \<Rightarrow> nat \<Rightarrow> nat \<Rightarrow> extract_geom" where
  "overlap hskip vskip new_hsize new_vsize ubuf_hsize ubuf_vsize =
     \<lparr>ex_hoffset = (if hskip < 0 then - hskip else 0),
      ex_voffset = (if vskip < 0 then - vskip else 0),
      ex_hskip = (if hskip < 0 then 0 else hskip),
      ex_vskip = (if vskip < 0 then 0 else vskip),
      ex_hsize = min (new_hsize - (if hskip < 0 then - hskip else 0))
                     (int ubuf_hsize - (if hskip < 0 then 0 else hskip)),
      ex_vsize = min (new_vsize - (if vskip < 0 then - vskip else 0))
                     (int ubuf_vsize - (if vskip < 0 then 0 else vskip))\<rparr>"

text \<open>
  What the manager answered for one plane during a copy: the state in which the plane
  was looked up, the strides of the source and of the new buffer, the subsampling, the
  octets of a macropixel, and the two mapped addresses.
\<close>

record 's plane_copy =
  pc_chroma :: chroma
  pc_state :: 's
  pc_stride :: nat
  pc_new_stride :: nat
  pc_hsub :: nat
  pc_vsub :: nat
  pc_macropixel_size :: nat
  pc_buffer :: addr
  pc_new_buffer :: addr

text \<open>
  The calls expected for one plane: the iterator names it, the overlap is mapped for
  writing in the new buffer and for reading in the source, line \<open>i\<close> of the overlap is
  copied from \<open>buffer + i * stride\<close> to \<open>new_buffer + i * new_stride\<close>, and both
  mappings are released. A line is the overlap divided by the horizontal subsampling
  and by the macropixel, times the octets of a macropixel; there are as many lines as
  the overlap divided by the vertical subsampling.
\<close>

definition plane_transfer ::
  "ubuf \<Rightarrow> ubuf \<Rightarrow> nat \<Rightarrow> extract_geom \<Rightarrow> 's plane_copy \<Rightarrow> event list" where
  "plane_transfer ubuf new_ubuf macropixel ex p =
     [Ev_iterate ubuf (Some (Some (pc_chroma p))),
      Ev_write new_ubuf (pc_chroma p) (ex_hoffset ex) (ex_voffset ex) (ex_hsize ex)
        (ex_vsize ex) (Some (pc_new_buffer p)),
      Ev_read ubuf (pc_chroma p) (ex_hskip ex) (ex_vskip ex) (ex_hsize ex)
        (ex_vsize ex) (Some (pc_buffer p))]
     @ map (\<lambda>i. Ev_memcpy (pc_new_buffer p + i * pc_new_stride p)
                   (pc_buffer p + i * pc_stride p)
                   (nat (ex_hsize ex div int (pc_hsub p) div int macropixel
                          * int (pc_macropixel_size p))))
         [0..<nat (ex_vsize ex div int (pc_vsub p))]
     @ [Ev_unmap new_ubuf (pc_chroma p) (ex_hoffset ex) (ex_voffset ex) (ex_hsize ex)
          (ex_vsize ex) True,
        Ev_unmap ubuf (pc_chroma p) (ex_hskip ex) (ex_vskip ex) (ex_hsize ex)
          (ex_vsize ex) True]"

text \<open>
  The four requests the manager receives for one plane, in the order of the code and
  starting from the state in which the plane was looked up: the overlap is mapped for
  writing in the new buffer, mapped for reading in the source, and both mappings are
  released. The result is the four answers and the state the manager is left in.
\<close>

definition plane_calls ::
  "'s ubuf_mgr \<Rightarrow> ubuf \<Rightarrow> ubuf \<Rightarrow> extract_geom \<Rightarrow> 's plane_copy \<Rightarrow>
     (addr option \<times> addr option \<times> bool \<times> bool) \<times> 's" where
  "plane_calls mgr ubuf new_ubuf ex p =
     (case write_picture_plane mgr new_ubuf (pc_chroma p)
             (ex_hoffset ex) (ex_voffset ex) (ex_hsize ex) (ex_vsize ex) (pc_state p) of
        (new_buffer, s1) \<Rightarrow>
     (case read_picture_plane mgr ubuf (pc_chroma p)
             (ex_hskip ex) (ex_vskip ex) (ex_hsize ex) (ex_vsize ex) s1 of
        (buffer, s2) \<Rightarrow>
     (case unmap_picture_plane mgr new_ubuf (pc_chroma p)
             (ex_hoffset ex) (ex_voffset ex) (ex_hsize ex) (ex_vsize ex) s2 of
        (ret, s3) \<Rightarrow>
     (case unmap_picture_plane mgr ubuf (pc_chroma p)
             (ex_hskip ex) (ex_vskip ex) (ex_hsize ex) (ex_vsize ex) s3 of
        (ret2, s4) \<Rightarrow> ((new_buffer, buffer, ret, ret2), s4)))))"

text \<open>
  The answers recorded for a plane are those the manager gave for it: both buffers know
  the plane, with the same subsampling and macropixel size, the subsampling factors
  are not zero, the two mappings of the overlap gave the recorded addresses, and both
  were released.
\<close>

definition plane_answers ::
  "'s ubuf_mgr \<Rightarrow> ubuf \<Rightarrow> ubuf \<Rightarrow> extract_geom \<Rightarrow> 's plane_copy \<Rightarrow> bool" where
  "plane_answers mgr ubuf new_ubuf ex p =
     (ubuf_pic_plane_size mgr (pc_state p) ubuf (pc_chroma p)
        = Some (pc_stride p, pc_hsub p, pc_vsub p, pc_macropixel_size p)
      \<and> ubuf_pic_plane_size mgr (pc_state p) new_ubuf (pc_chroma p)
        = Some (pc_new_stride p, pc_hsub p, pc_vsub p, pc_macropixel_size p)
      \<and> 0 < pc_hsub p \<and> 0 < pc_vsub p
      \<and> fst (plane_calls mgr ubuf new_ubuf ex p)
        = (Some (pc_new_buffer p), Some (pc_buffer p), True, True))"

text \<open>
  The planes of a copy are the planes the iterator of the source names, in its order:
  asked from \<open>cursor\<close> in the state \<open>s\<close>, the iterator names the first plane of the
  list, which is looked up in that state and answered by the manager; asked again from
  that plane, in the state its four requests left, it names the next one; and after
  the last plane of the list its answer is \<open>final\<close>, which names no plane (the end of
  the planes, or an error), the state being \<open>s'\<close> then.
\<close>

fun planes_follow ::
  "'s ubuf_mgr \<Rightarrow> ubuf \<Rightarrow> ubuf \<Rightarrow> extract_geom \<Rightarrow> chroma option \<Rightarrow> 's \<Rightarrow>
     's plane_copy list \<Rightarrow> chroma option option \<Rightarrow> 's \<Rightarrow> bool" where
  "planes_follow mgr ubuf new_ubuf ex cursor s [] final s' =
     (ubuf_pic_plane_iterate mgr s ubuf cursor = final
      \<and> (final = None \<or> final = Some None) \<and> s' = s)"
| "planes_follow mgr ubuf new_ubuf ex cursor s (p # ps) final s' =
     (ubuf_pic_plane_iterate mgr s ubuf cursor = Some (Some (pc_chroma p))
      \<and> pc_state p = s
      \<and> plane_answers mgr ubuf new_ubuf ex p
      \<and> planes_follow mgr ubuf new_ubuf ex (Some (pc_chroma p))
          (snd (plane_calls mgr ubuf new_ubuf ex p)) ps final s')"

text \<open>
  An event leaves a buffer alone when it does not release it, map it for writing or
  resize it.
\<close>

fun leaves_alone :: "ubuf \<Rightarrow> event \<Rightarrow> bool" where
  "leaves_alone u (Ev_free b) = (b \<noteq> u)"
| "leaves_alone u (Ev_write b c hoffset voffset hsize vsize r) = (b \<noteq> u)"
| "leaves_alone u (Ev_resize b hskip vskip new_hsize new_vsize r) = (b \<noteq> u)"
| "leaves_alone u (Ev_alloc hsize vsize r) = True"
| "leaves_alone u (Ev_iterate b r) = True"
| "leaves_alone u (Ev_read b c hoffset voffset hsize vsize r) = True"
| "leaves_alone u (Ev_unmap b c hoffset voffset hsize vsize r) = True"
| "leaves_alone u (Ev_memcpy dst src n) = True"

section \<open>A storage manager, from the specification\<close>

text \<open>
  Modelled from the spec: the storage manager behind \<open>ubuf_alloc\<close>, \<open>ubuf_free\<close> and
  \<open>ubuf_control\<close>, whose code is not part of \<open>ubuf_pic.h\<close>. The specification describes
  it by the interface of its section 6 and the rules of sections 3, 4.2, 4.3 and 5:
  a picture has a global size, a macropixel and planes with a stride, subsampling
  factors and a macropixel size in octets; allocation enforces that the size is a
  multiple of each plane's unit, and a resize validates it again; a query on an unknown plane fails; a plane is mapped
  at most once at a time, and a write mapping needs storage that no other handle
  shares; a pure shrink (skip at least 0 on both axes, new size at most the extent
  minus the skip) always succeeds, and growing succeeds only on storage that is
  exclusively owned and that the manager can extend. The format is fixed per manager.
\<close>

record pic_format =
  fmt_macropixel :: nat
  fmt_planes :: "(chroma \<times> nat \<times> nat \<times> nat) list"
  fmt_can_grow :: bool

record pic =
  pic_hsize :: nat
  pic_vsize :: nat
  pic_refcount :: nat
  pic_mapped :: "chroma list"

record spec_state =
  pics :: "ubuf \<Rightarrow> pic option"
  next_ubuf :: ubuf

text \<open>Modelled from the spec: a plane descriptor of the format, by chroma key.\<close>

fun plane_lookup :: "(chroma \<times> nat \<times> nat \<times> nat) list \<Rightarrow> chroma \<Rightarrow> (nat \<times> nat \<times> nat) option" where
  "plane_lookup [] c = None"
| "plane_lookup ((k, d) # ps) c = (if k = c then Some d else plane_lookup ps c)"

text \<open>The number of planes that follow the plane \<open>c\<close> in the manager's order.\<close>

fun planes_left :: "(chroma \<times> nat \<times> nat \<times> nat) list \<Rightarrow> chroma \<Rightarrow> nat" where
  "planes_left [] c = 0"
| "planes_left ((k, d) # ps) c = (if k = c then length ps else planes_left ps c)"

text \<open>Modelled from the spec: the key that follows the cursor in the manager's order.\<close>

fun plane_after :: "(chroma \<times> nat \<times> nat \<times> nat) list \<Rightarrow> chroma \<Rightarrow> chroma option option" where
  "plane_after [] c = None"
| "plane_after ((k, d) # ps) c =
     (if k = c then (case ps of [] \<Rightarrow> Some None | (k', d') # ps' \<Rightarrow> Some (Some k'))
      else plane_after ps c)"

text \<open>
  Modelled from the spec: the invariant enforced at allocation,
  \<open>global_hsize % (macropixel * hsub) == 0\<close> and \<open>global_vsize % vsub == 0\<close> for every
  plane.
\<close>

fun size_fits :: "nat \<Rightarrow> (chroma \<times> nat \<times> nat \<times> nat) list \<Rightarrow> nat \<Rightarrow> nat \<Rightarrow> bool" where
  "size_fits macropixel [] hsize vsize = True"
| "size_fits macropixel ((k, hsub, vsub, macropixel_size) # ps) hsize vsize =
     (hsize mod (macropixel * hsub) = 0 \<and> vsize mod vsub = 0
      \<and> size_fits macropixel ps hsize vsize)"

text \<open>Modelled from the spec: \<open>allocate(hsize, vsize)\<close>.\<close>

definition spec_alloc :: "pic_format \<Rightarrow> int \<Rightarrow> int \<Rightarrow> spec_state \<Rightarrow> ubuf option \<times> spec_state" where
  "spec_alloc fmt hsize vsize s =
     (if 0 \<le> hsize \<and> 0 \<le> vsize
         \<and> size_fits (fmt_macropixel fmt) (fmt_planes fmt) (nat hsize) (nat vsize)
      then (Some (next_ubuf s),
            s\<lparr>pics := (pics s)(next_ubuf s \<mapsto>
                 \<lparr>pic_hsize = nat hsize, pic_vsize = nat vsize,
                  pic_refcount = 1, pic_mapped = []\<rparr>),
              next_ubuf := Suc (next_ubuf s)\<rparr>)
      else (None, s))"

text \<open>Modelled from the spec: \<open>release(buffer)\<close>.\<close>

definition spec_free :: "ubuf \<Rightarrow> spec_state \<Rightarrow> spec_state" where
  "spec_free ubuf s = s\<lparr>pics := (pics s)(ubuf := None)\<rparr>"

text \<open>Modelled from the spec: \<open>query_size(buffer)\<close>.\<close>

definition spec_size :: "pic_format \<Rightarrow> ubuf \<Rightarrow> spec_state \<Rightarrow> (nat \<times> nat \<times> nat) option" where
  "spec_size fmt ubuf s =
     (case pics s ubuf of
        None \<Rightarrow> None
      | Some p \<Rightarrow> Some (pic_hsize p, pic_vsize p, fmt_macropixel fmt))"

text \<open>Modelled from the spec: \<open>iterate_plane_keys(buffer)\<close>, one step from a cursor.\<close>

definition spec_iterate ::
  "pic_format \<Rightarrow> ubuf \<Rightarrow> chroma option \<Rightarrow> spec_state \<Rightarrow> chroma option option" where
  "spec_iterate fmt ubuf cursor s =
     (case pics s ubuf of
        None \<Rightarrow> None
      | Some p \<Rightarrow>
          (case cursor of
             None \<Rightarrow> (case fmt_planes fmt of [] \<Rightarrow> Some None | (k, d) # ps \<Rightarrow> Some (Some k))
           | Some c \<Rightarrow> plane_after (fmt_planes fmt) c))"

text \<open>
  Modelled from the spec: \<open>query_plane(buffer, key)\<close>. The stride is the minimal one,
  the octets of one line of the plane.
\<close>

definition spec_plane_size ::
  "pic_format \<Rightarrow> ubuf \<Rightarrow> chroma \<Rightarrow> spec_state \<Rightarrow> (nat \<times> nat \<times> nat \<times> nat) option" where
  "spec_plane_size fmt ubuf chroma s =
     (case pics s ubuf of
        None \<Rightarrow> None
      | Some p \<Rightarrow>
          (case plane_lookup (fmt_planes fmt) chroma of
             None \<Rightarrow> None
           | Some (hsub, vsub, macropixel_size) \<Rightarrow>
               Some (pic_hsize p div hsub div fmt_macropixel fmt * macropixel_size,
                     hsub, vsub, macropixel_size)))"

text \<open>
  Modelled from the spec: the address of a mapped region. The specification fixes no
  layout; here every buffer owns a block of \<open>1048576\<close> octets and every plane
  \<open>65536\<close> octets of it, and a region starts
  \<open>voffset / vsub\<close> lines and \<open>hoffset / hsub / macropixel\<close> macropixels into it.
\<close>

fun plane_index :: "(chroma \<times> nat \<times> nat \<times> nat) list \<Rightarrow> chroma \<Rightarrow> nat" where
  "plane_index [] c = 0"
| "plane_index ((k, d) # ps) c = (if k = c then 0 else Suc (plane_index ps c))"

definition spec_address ::
  "pic_format \<Rightarrow> ubuf \<Rightarrow> pic \<Rightarrow> chroma \<Rightarrow> nat \<Rightarrow> nat \<Rightarrow> nat \<Rightarrow> int \<Rightarrow> int \<Rightarrow> addr" where
  "spec_address fmt ubuf p chroma hsub vsub macropixel_size hoffset voffset =
     ubuf * 1048576 + plane_index (fmt_planes fmt) chroma * 65536
       + nat voffset div vsub * (pic_hsize p div hsub div fmt_macropixel fmt * macropixel_size)
       + nat hoffset div hsub div fmt_macropixel fmt * macropixel_size"

text \<open>Modelled from the spec: \<open>map_read\<close>; a plane that is already mapped is refused.\<close>

definition spec_read ::
  "pic_format \<Rightarrow> ubuf \<Rightarrow> chroma \<Rightarrow> int \<Rightarrow> int \<Rightarrow> int \<Rightarrow> int \<Rightarrow> spec_state \<Rightarrow>
     addr option \<times> spec_state" where
  "spec_read fmt ubuf chroma hoffset voffset hsize vsize s =
     (case pics s ubuf of
        None \<Rightarrow> (None, s)
      | Some p \<Rightarrow>
          (case plane_lookup (fmt_planes fmt) chroma of
             None \<Rightarrow> (None, s)
           | Some (hsub, vsub, macropixel_size) \<Rightarrow>
               if chroma \<in> set (pic_mapped p) then (None, s)
               else (Some (spec_address fmt ubuf p chroma hsub vsub macropixel_size hoffset voffset),
                     s\<lparr>pics := (pics s)(ubuf \<mapsto> p\<lparr>pic_mapped := chroma # pic_mapped p\<rparr>)\<rparr>)))"

text \<open>
  Modelled from the spec: \<open>map_write\<close>; it fails on storage shared with another
  handle (reference count above one).
\<close>

definition spec_write ::
  "pic_format \<Rightarrow> ubuf \<Rightarrow> chroma \<Rightarrow> int \<Rightarrow> int \<Rightarrow> int \<Rightarrow> int \<Rightarrow> spec_state \<Rightarrow>
     addr option \<times> spec_state" where
  "spec_write fmt ubuf chroma hoffset voffset hsize vsize s =
     (case pics s ubuf of
        None \<Rightarrow> (None, s)
      | Some p \<Rightarrow>
          if 1 < pic_refcount p then (None, s)
          else spec_read fmt ubuf chroma hoffset voffset hsize vsize s)"

text \<open>Modelled from the spec: \<open>unmap\<close>; it fails on a plane that is not mapped.\<close>

definition spec_unmap ::
  "pic_format \<Rightarrow> ubuf \<Rightarrow> chroma \<Rightarrow> int \<Rightarrow> int \<Rightarrow> int \<Rightarrow> int \<Rightarrow> spec_state \<Rightarrow>
     bool \<times> spec_state" where
  "spec_unmap fmt ubuf chroma hoffset voffset hsize vsize s =
     (case pics s ubuf of
        None \<Rightarrow> (False, s)
      | Some p \<Rightarrow>
          if chroma \<in> set (pic_mapped p) then
            (True, s\<lparr>pics := (pics s)(ubuf \<mapsto> p\<lparr>pic_mapped := removeAll chroma (pic_mapped p)\<rparr>)\<rparr>)
          else (False, s))"

text \<open>
  Modelled from the spec: \<open>resize_in_place\<close>. The invariant of section 3 is validated
  again for the new size, as at allocation: a size that is negative or not a multiple
  of the unit of every plane is refused. Then a pure shrink succeeds unconditionally;
  anything else needs exclusive ownership and a manager that can extend the storage.
\<close>

definition spec_resize ::
  "pic_format \<Rightarrow> ubuf \<Rightarrow> int \<Rightarrow> int \<Rightarrow> int \<Rightarrow> int \<Rightarrow> spec_state \<Rightarrow> bool \<times> spec_state" where
  "spec_resize fmt ubuf hskip vskip new_hsize new_vsize s =
     (case pics s ubuf of
        None \<Rightarrow> (False, s)
      | Some p \<Rightarrow>
          if 0 \<le> new_hsize \<and> 0 \<le> new_vsize
             \<and> size_fits (fmt_macropixel fmt) (fmt_planes fmt) (nat new_hsize) (nat new_vsize)
          then
            if (0 \<le> hskip \<and> 0 \<le> vskip
                \<and> new_hsize \<le> int (pic_hsize p) - hskip
                \<and> new_vsize \<le> int (pic_vsize p) - vskip)
               \<or> (pic_refcount p = 1 \<and> fmt_can_grow fmt)
            then (True, s\<lparr>pics := (pics s)(ubuf \<mapsto>
                            p\<lparr>pic_hsize := nat new_hsize, pic_vsize := nat new_vsize\<rparr>)\<rparr>)
            else (False, s)
          else (False, s))"

definition spec_mgr :: "pic_format \<Rightarrow> spec_state ubuf_mgr" where
  "spec_mgr fmt =
     \<lparr>alloc_picture = spec_alloc fmt,
      free_ubuf = spec_free,
      size_picture = spec_size fmt,
      iterate_picture_plane = spec_iterate fmt,
      size_picture_plane = spec_plane_size fmt,
      read_picture_plane = spec_read fmt,
      write_picture_plane = spec_write fmt,
      unmap_picture_plane = spec_unmap fmt,
      resize_picture = spec_resize fmt\<rparr>"

text \<open>
  Two formats and a state for the examples: a planar 4:2:0 format (macropixel 1) and
  a packed format whose macropixel is two pixels in four octets; the state holds one
  picture of 4 by 2 pixels at address 0.
\<close>

definition yuv420p :: pic_format where
  "yuv420p = \<lparr>fmt_macropixel = 1,
              fmt_planes = [(''y8'', 1, 1, 1), (''u8'', 2, 2, 1), (''v8'', 2, 2, 1)],
              fmt_can_grow = False\<rparr>"

definition yuyv422 :: pic_format where
  "yuyv422 = \<lparr>fmt_macropixel = 2,
              fmt_planes = [(''y8u8y8v8'', 1, 1, 4)],
              fmt_can_grow = False\<rparr>"

definition one_pic :: spec_state where
  "one_pic = \<lparr>pics = (\<lambda>u. None)(0 \<mapsto>
                 \<lparr>pic_hsize = 4, pic_vsize = 2, pic_refcount = 1, pic_mapped = []\<rparr>),
              next_ubuf = 1\<rparr>"

text \<open>
  A state in which the plane of the picture at address 0 is already mapped, so that
  the manager refuses to map it again.
\<close>

definition busy_pic :: spec_state where
  "busy_pic = \<lparr>pics = (\<lambda>u. None)(0 \<mapsto>
                  \<lparr>pic_hsize = 4, pic_vsize = 2, pic_refcount = 1,
                   pic_mapped = [''y8u8y8v8'']\<rparr>),
               next_ubuf = 1\<rparr>"

text \<open>
  A manager whose plane iterator names the first plane and reports an error on the next
  call; everything else is the manager above.
\<close>

definition iterate_fails_mgr :: "pic_format \<Rightarrow> spec_state ubuf_mgr" where
  "iterate_fails_mgr fmt =
     (spec_mgr fmt)\<lparr>iterate_picture_plane :=
        (\<lambda>ubuf cursor s. case cursor of None \<Rightarrow> spec_iterate fmt ubuf None s
                                        | Some c \<Rightarrow> None)\<rparr>"

section \<open>Facts about the C integers\<close>

lemma to_int_id: "is_int x \<Longrightarrow> to_int x = x"
  by (simp add: is_int_def to_int_def INT_MIN_def INT_MAX_def)

lemma to_int_nat: "int n \<le> INT_MAX \<Longrightarrow> to_int (int n) = int n"
  by (simp add: to_int_def INT_MAX_def)

lemma c_div_pos: "0 < b \<Longrightarrow> c_div a b = sgn a * (\<bar>a\<bar> div b)"
  by (simp add: c_div_def)

lemma c_div_nonneg: "0 \<le> a \<Longrightarrow> 0 < b \<Longrightarrow> c_div a b = a div b"
  by (cases "a = 0") (simp_all add: c_div_def)

text \<open>The only use the checks make of \<open>%\<close> is a test against zero, which is divisibility.\<close>

lemma c_mod_eq_0_iff: "0 < b \<Longrightarrow> (c_mod a b = 0) = (a mod b = 0)"
proof -
  assume b: "0 < b"
  have "(c_mod a b = 0) = (a = sgn a * (\<bar>a\<bar> div b) * b)"
    using b by (simp add: c_mod_def c_div_pos)
  also have "\<dots> = (\<bar>a\<bar> = (\<bar>a\<bar> div b) * b)"
    by (cases "a < 0") (auto simp: sgn_if)
  also have "\<dots> = (\<bar>a\<bar> mod b = 0)"
    by (metis mod_eq_0_iff_dvd dvd_div_mult_self dvd_triv_right)
  also have "\<dots> = (a mod b = 0)"
    by (simp add: mod_eq_0_iff_dvd)
  finally show ?thesis .
qed

text \<open>The definitions that evaluate a check on the example manager.\<close>

lemmas check_eval =
  accepted_def ubuf_pic_plane_check_offset_def ubuf_pic_check_resize_def ubuf_pic_size_def
  ubuf_pic_plane_size_def spec_mgr_def spec_size_def spec_plane_size_def one_pic_def
  yuv420p_def yuyv422_def to_int_def is_int_def INT_MIN_def INT_MAX_def abs_offset_def
  abs_size_def c_mod_def c_div_def

section \<open>The offset check\<close>

text \<open>
  With a macropixel and subsampling factors of at least 1 and sums that fit an \<open>int\<close>,
  the check returns: it has no undefined behaviour.
\<close>

lemma check_offset_returns:
  assumes "ubuf_pic_size mgr s ubuf = Some (ubuf_hsize, ubuf_vsize, macropixel)"
    and "0 < macropixel"
    and "is_int (hoffset + hsize)" and "is_int (voffset + vsize)"
    and "\<And>stride hsub vsub macropixel_size.
           ubuf_pic_plane_size mgr s ubuf chroma = Some (stride, hsub, vsub, macropixel_size)
           \<Longrightarrow> 0 < hsub \<and> 0 < vsub"
  shows "\<exists>r. ubuf_pic_plane_check_offset mgr s ubuf chroma hoffset voffset hsize vsize
               = Returns r"
  using assms
  by (auto simp: ubuf_pic_plane_check_offset_def Let_def split: option.splits)

text \<open>
  For offsets that are not negative, an accepted region lies inside the picture.
\<close>

lemma check_offset_bounds_nonneg:
  assumes "ubuf_pic_plane_check_offset mgr s ubuf chroma hoffset voffset hsize vsize
             = Returns (True, ho, vo, hs, vs)"
    and "ubuf_pic_size mgr s ubuf = Some (ubuf_hsize, ubuf_vsize, macropixel)"
    and "int ubuf_hsize \<le> INT_MAX" and "int ubuf_vsize \<le> INT_MAX"
    and "0 \<le> hoffset" and "0 \<le> voffset"
  shows "0 \<le> ho \<and> ho + hs \<le> int ubuf_hsize \<and> 0 \<le> vo \<and> vo + vs \<le> int ubuf_vsize"
proof -
  from assms(1,2,3,4) have g: "hoffset \<le> int ubuf_hsize" "voffset \<le> int ubuf_vsize"
      "hoffset + hsize \<le> int ubuf_hsize" "voffset + vsize \<le> int ubuf_vsize"
      "ho = abs_offset ubuf_hsize hoffset" "vo = abs_offset ubuf_vsize voffset"
      "hs = abs_size ubuf_hsize ho hsize" "vs = abs_size ubuf_vsize vo vsize"
    by (auto simp: ubuf_pic_plane_check_offset_def Let_def to_int_nat
        split: option.splits if_splits)
  have "ho = hoffset" "vo = voffset"
    using g assms(5,6) by (simp_all add: abs_offset_def)
  moreover have "hs = (if hsize = - 1 then int ubuf_hsize - hoffset else hsize)"
    using g \<open>ho = hoffset\<close> assms(3,5)
    by (simp add: abs_size_def to_int_def INT_MAX_def)
  moreover have "vs = (if vsize = - 1 then int ubuf_vsize - voffset else vsize)"
    using g \<open>vo = voffset\<close> assms(4,6)
    by (simp add: abs_size_def to_int_def INT_MAX_def)
  ultimately show ?thesis
    using g assms(5,6) by auto
qed

text \<open>
  C1. The claim: the check succeeds only when the resolved region satisfies
  \<open>abs_offset \<ge> 0\<close> and \<open>abs_offset + abs_size \<le> extent\<close> on both axes. The code tests
  the bounds on the values as passed, before a negative offset is resolved: on a
  picture of 4 by 2 pixels (macropixel 1, plane \<open>y8\<close> with no subsampling) the region
  with \<open>hoffset = -2\<close> and \<open>hsize = 4\<close> passes, since \<open>-2 + 4 \<le> 4\<close>, and is returned as
  valid with the absolute offset 2 and the size 4, which ends two pixels after the end
  of the line. Nothing bounds a negative offset from below either: \<open>hoffset = -10\<close> is
  resolved to \<open>-6\<close> and accepted.
\<close>

theorem check_offset_accepts_region_past_the_end:
  "ubuf_pic_size (spec_mgr yuv420p) one_pic 0 = Some (4, 2, 1)
   \<and> ubuf_pic_plane_size (spec_mgr yuv420p) one_pic 0 ''y8'' = Some (4, 1, 1, 1)
   \<and> ubuf_pic_plane_check_offset (spec_mgr yuv420p) one_pic 0 ''y8'' (- 2) 0 4 1
       = Returns (True, 2, 0, 4, 1)
   \<and> (2::int) + 4 > 4
   \<and> ubuf_pic_plane_check_offset (spec_mgr yuv420p) one_pic 0 ''y8'' (- 10) 0 (- 1) 1
       = Returns (True, - 6, 0, 10, 1)
   \<and> (- 6::int) < 0"
  by (simp add: check_eval)

text \<open>
  C5. For a picture of extents \<open>ubuf_hsize\<close> by \<open>ubuf_vsize\<close> that fit an \<open>int\<close>, an
  offset \<open>-k\<close> and the offset \<open>extent - k\<close> give the same answer with the same size, on
  each axis and whatever the other axis holds: the same refusal, or the same absolute
  region. Valid \<open>k\<close> and \<open>s\<close> are those of a region inside the picture: \<open>1 \<le> k \<le> extent\<close>,
  and \<open>s\<close> is \<open>-1\<close> or a size between 0 and \<open>k\<close>.
\<close>

theorem negative_offset_equivalence:
  assumes "ubuf_pic_size mgr s ubuf = Some (ubuf_hsize, ubuf_vsize, macropixel)"
    and "int ubuf_hsize \<le> INT_MAX" and "int ubuf_vsize \<le> INT_MAX"
    and "1 \<le> k" and "k \<le> int ubuf_hsize" and "- 1 \<le> sz" and "sz \<le> k"
    and "1 \<le> l" and "l \<le> int ubuf_vsize" and "- 1 \<le> tz" and "tz \<le> l"
  shows "accepted (ubuf_pic_plane_check_offset mgr s ubuf chroma (- k) voffset sz vsize)
           = accepted (ubuf_pic_plane_check_offset mgr s ubuf chroma
                         (int ubuf_hsize - k) voffset sz vsize)
       \<and> accepted (ubuf_pic_plane_check_offset mgr s ubuf chroma hoffset (- l) hsize tz)
           = accepted (ubuf_pic_plane_check_offset mgr s ubuf chroma
                         hoffset (int ubuf_vsize - l) hsize tz)"
proof -
  have h: "abs_offset ubuf_hsize (- k) = int ubuf_hsize - k"
       "abs_offset ubuf_hsize (int ubuf_hsize - k) = int ubuf_hsize - k"
    using assms by (simp_all add: abs_offset_def to_int_def INT_MAX_def)
  have v: "abs_offset ubuf_vsize (- l) = int ubuf_vsize - l"
       "abs_offset ubuf_vsize (int ubuf_vsize - l) = int ubuf_vsize - l"
    using assms by (simp_all add: abs_offset_def to_int_def INT_MAX_def)
  have hi: "is_int (- k + sz)" "is_int (int ubuf_hsize - k + sz)"
    using assms by (simp_all add: is_int_def INT_MIN_def INT_MAX_def)
  have vi: "is_int (- l + tz)" "is_int (int ubuf_vsize - l + tz)"
    using assms by (simp_all add: is_int_def INT_MIN_def INT_MAX_def)
  show ?thesis
    using assms h v hi vi
    by (simp add: ubuf_pic_plane_check_offset_def to_int_nat accepted_def)
qed

theorem negative_offset_equivalence_witness:
  "ubuf_pic_size (spec_mgr yuv420p) one_pic 0 = Some (4, 2, 1)
   \<and> accepted (ubuf_pic_plane_check_offset (spec_mgr yuv420p) one_pic 0 ''u8'' (- 2) 0 2 2)
       = Returns (Some (2, 0, 2, 2))
   \<and> accepted (ubuf_pic_plane_check_offset (spec_mgr yuv420p) one_pic 0 ''u8'' (- 2) 0 2 2)
       = accepted (ubuf_pic_plane_check_offset (spec_mgr yuv420p) one_pic 0 ''u8''
                     (4 - 2) 0 2 2)
   \<and> accepted (ubuf_pic_plane_check_offset (spec_mgr yuv420p) one_pic 0 ''u8'' 0 (- 2) 4 (- 1))
       = accepted (ubuf_pic_plane_check_offset (spec_mgr yuv420p) one_pic 0 ''u8''
                     0 (2 - 2) 4 (- 1))"
  using negative_offset_equivalence [where mgr = "spec_mgr yuv420p" and s = one_pic
      and ubuf = 0 and ubuf_hsize = 4 and ubuf_vsize = 2 and macropixel = 1
      and k = 2 and sz = 2 and l = 2 and tz = "- 1" and chroma = "''u8''"
      and voffset = 0 and vsize = 2 and hoffset = 0 and hsize = 4]
  by (simp add: check_eval)

text \<open>
  C9. The claim, for every offset \<open>o\<close>: a size of \<open>-1\<close> gives the same answer as the
  size \<open>extent - o\<close>. For a negative offset it does not: on a line of 4 pixels the
  offset \<open>-2\<close> with the size \<open>-1\<close> is resolved to the region \<open>(2, 2)\<close>, with the size
  \<open>4 - (-2) = 6\<close> it is accepted as \<open>(2, 6)\<close>.
\<close>

theorem open_size_counterexample:
  "accepted (ubuf_pic_plane_check_offset (spec_mgr yuv420p) one_pic 0 ''y8'' (- 2) 0 (- 1) 1)
     = Returns (Some (2, 0, 2, 1))
   \<and> accepted (ubuf_pic_plane_check_offset (spec_mgr yuv420p) one_pic 0 ''y8''
                 (- 2) 0 (4 - (- 2)) 1)
     = Returns (Some (2, 0, 6, 1))
   \<and> accepted (ubuf_pic_plane_check_offset (spec_mgr yuv420p) one_pic 0 ''y8'' (- 2) 0 (- 1) 1)
     \<noteq> accepted (ubuf_pic_plane_check_offset (spec_mgr yuv420p) one_pic 0 ''y8''
                   (- 2) 0 (4 - (- 2)) 1)"
  by (simp add: check_eval)

text \<open>
  C9, amended. For an offset \<open>o \<ge> 0\<close> a size of \<open>-1\<close> gives the same answer as the size
  \<open>extent - o\<close> (both are refused when \<open>o\<close> is beyond the extent); for a negative offset
  \<open>-k\<close> with \<open>1 \<le> k \<le> extent\<close> it gives the same answer as the size \<open>k\<close>, the extent
  minus the resolved offset \<open>extent - k\<close>. This holds on each axis, whatever the other
  axis holds, for extents that fit an \<open>int\<close>.
\<close>

theorem open_size_equivalence:
  assumes "ubuf_pic_size mgr s ubuf = Some (ubuf_hsize, ubuf_vsize, macropixel)"
    and "int ubuf_hsize \<le> INT_MAX" and "int ubuf_vsize \<le> INT_MAX"
  shows "(0 \<le> hoffset \<longrightarrow>
            accepted (ubuf_pic_plane_check_offset mgr s ubuf chroma hoffset voffset (- 1) vsize)
            = accepted (ubuf_pic_plane_check_offset mgr s ubuf chroma
                          hoffset voffset (int ubuf_hsize - hoffset) vsize))
       \<and> (0 \<le> voffset \<longrightarrow>
            accepted (ubuf_pic_plane_check_offset mgr s ubuf chroma hoffset voffset hsize (- 1))
            = accepted (ubuf_pic_plane_check_offset mgr s ubuf chroma
                          hoffset voffset hsize (int ubuf_vsize - voffset)))
       \<and> (1 \<le> k \<and> k \<le> int ubuf_hsize \<longrightarrow>
            accepted (ubuf_pic_plane_check_offset mgr s ubuf chroma (- k) voffset (- 1) vsize)
            = accepted (ubuf_pic_plane_check_offset mgr s ubuf chroma (- k) voffset k vsize))
       \<and> (1 \<le> l \<and> l \<le> int ubuf_vsize \<longrightarrow>
            accepted (ubuf_pic_plane_check_offset mgr s ubuf chroma hoffset (- l) hsize (- 1))
            = accepted (ubuf_pic_plane_check_offset mgr s ubuf chroma hoffset (- l) hsize l))"
proof (intro conjI impI)
  assume a: "0 \<le> hoffset"
  show "accepted (ubuf_pic_plane_check_offset mgr s ubuf chroma hoffset voffset (- 1) vsize)
            = accepted (ubuf_pic_plane_check_offset mgr s ubuf chroma
                          hoffset voffset (int ubuf_hsize - hoffset) vsize)"
  proof (cases "hoffset \<le> int ubuf_hsize")
    case True
    have "is_int (hoffset + - 1)" "is_int (int ubuf_hsize)"
         "abs_offset ubuf_hsize hoffset = hoffset"
         "abs_size ubuf_hsize hoffset (- 1) = int ubuf_hsize - hoffset"
         "abs_size ubuf_hsize hoffset (int ubuf_hsize - hoffset) = int ubuf_hsize - hoffset"
      using a True assms(2)
      by (simp_all add: is_int_def INT_MIN_def INT_MAX_def abs_offset_def abs_size_def to_int_def)
    then show ?thesis
      using assms True by (simp add: ubuf_pic_plane_check_offset_def to_int_nat accepted_def)
  next
    case False
    then show ?thesis
      using assms by (simp add: ubuf_pic_plane_check_offset_def to_int_nat accepted_def)
  qed
next
  assume a: "0 \<le> voffset"
  show "accepted (ubuf_pic_plane_check_offset mgr s ubuf chroma hoffset voffset hsize (- 1))
            = accepted (ubuf_pic_plane_check_offset mgr s ubuf chroma
                          hoffset voffset hsize (int ubuf_vsize - voffset))"
  proof (cases "voffset \<le> int ubuf_vsize")
    case True
    have "is_int (voffset + - 1)" "is_int (int ubuf_vsize)"
         "abs_offset ubuf_vsize voffset = voffset"
         "abs_size ubuf_vsize voffset (- 1) = int ubuf_vsize - voffset"
         "abs_size ubuf_vsize voffset (int ubuf_vsize - voffset) = int ubuf_vsize - voffset"
      using a True assms(3)
      by (simp_all add: is_int_def INT_MIN_def INT_MAX_def abs_offset_def abs_size_def to_int_def)
    then show ?thesis
      using assms True by (simp add: ubuf_pic_plane_check_offset_def to_int_nat accepted_def)
  next
    case False
    then show ?thesis
      using assms by (simp add: ubuf_pic_plane_check_offset_def to_int_nat accepted_def)
  qed
next
  assume a: "1 \<le> k \<and> k \<le> int ubuf_hsize"
  have "is_int (- k + - 1)" "is_int (- k + k)"
       "abs_offset ubuf_hsize (- k) = int ubuf_hsize - k"
       "abs_size ubuf_hsize (int ubuf_hsize - k) (- 1) = k"
       "abs_size ubuf_hsize (int ubuf_hsize - k) k = k"
    using a assms(2)
    by (simp_all add: is_int_def INT_MIN_def INT_MAX_def abs_offset_def abs_size_def to_int_def)
  then show "accepted (ubuf_pic_plane_check_offset mgr s ubuf chroma (- k) voffset (- 1) vsize)
            = accepted (ubuf_pic_plane_check_offset mgr s ubuf chroma (- k) voffset k vsize)"
    using assms a by (simp add: ubuf_pic_plane_check_offset_def to_int_nat accepted_def)
next
  assume a: "1 \<le> l \<and> l \<le> int ubuf_vsize"
  have "is_int (- l + - 1)" "is_int (- l + l)"
       "abs_offset ubuf_vsize (- l) = int ubuf_vsize - l"
       "abs_size ubuf_vsize (int ubuf_vsize - l) (- 1) = l"
       "abs_size ubuf_vsize (int ubuf_vsize - l) l = l"
    using a assms(3)
    by (simp_all add: is_int_def INT_MIN_def INT_MAX_def abs_offset_def abs_size_def to_int_def)
  then show "accepted (ubuf_pic_plane_check_offset mgr s ubuf chroma hoffset (- l) hsize (- 1))
            = accepted (ubuf_pic_plane_check_offset mgr s ubuf chroma hoffset (- l) hsize l)"
    using assms a by (simp add: ubuf_pic_plane_check_offset_def to_int_nat accepted_def)
qed

theorem open_size_equivalence_witness:
  "ubuf_pic_size (spec_mgr yuv420p) one_pic 0 = Some (4, 2, 1)
   \<and> accepted (ubuf_pic_plane_check_offset (spec_mgr yuv420p) one_pic 0 ''y8'' 2 0 (- 1) 1)
       = Returns (Some (2, 0, 2, 1))
   \<and> accepted (ubuf_pic_plane_check_offset (spec_mgr yuv420p) one_pic 0 ''y8'' 2 0 (- 1) 1)
       = accepted (ubuf_pic_plane_check_offset (spec_mgr yuv420p) one_pic 0 ''y8''
                     2 0 (4 - 2) 1)
   \<and> accepted (ubuf_pic_plane_check_offset (spec_mgr yuv420p) one_pic 0 ''y8'' 2 0 4 (- 1))
       = accepted (ubuf_pic_plane_check_offset (spec_mgr yuv420p) one_pic 0 ''y8''
                     2 0 4 (2 - 0))
   \<and> accepted (ubuf_pic_plane_check_offset (spec_mgr yuv420p) one_pic 0 ''y8'' (- 2) 0 (- 1) 1)
       = accepted (ubuf_pic_plane_check_offset (spec_mgr yuv420p) one_pic 0 ''y8''
                     (- 2) 0 2 1)
   \<and> accepted (ubuf_pic_plane_check_offset (spec_mgr yuv420p) one_pic 0 ''y8'' 2 (- 1) 4 (- 1))
       = accepted (ubuf_pic_plane_check_offset (spec_mgr yuv420p) one_pic 0 ''y8''
                     2 (- 1) 4 1)"
  using open_size_equivalence [where mgr = "spec_mgr yuv420p" and s = one_pic
      and ubuf = 0 and ubuf_hsize = 4 and ubuf_vsize = 2 and macropixel = 1
      and hoffset = 2 and voffset = 0 and k = 2 and l = 1 and chroma = "''y8''"
      and vsize = 1 and hsize = 4]
  by (simp add: check_eval)

text \<open>
  Once the bounds guard of lines 140 to 144 has let the values through, the function
  returns what lines 145 to 152 made of them, whether it accepts or refuses.
\<close>

lemma check_offset_leaves_resolved:
  assumes "ubuf_pic_plane_check_offset mgr s ubuf chroma hoffset voffset hsize vsize
             = Returns (ok, r)"
    and "ubuf_pic_size mgr s ubuf = Some (ubuf_hsize, ubuf_vsize, macropixel)"
    and "int ubuf_hsize \<le> INT_MAX" and "int ubuf_vsize \<le> INT_MAX"
    and "hoffset \<le> int ubuf_hsize" and "voffset \<le> int ubuf_vsize"
    and "hoffset + hsize \<le> int ubuf_hsize" and "voffset + vsize \<le> int ubuf_vsize"
  shows "r = (abs_offset ubuf_hsize hoffset, abs_offset ubuf_vsize voffset,
              abs_size ubuf_hsize (abs_offset ubuf_hsize hoffset) hsize,
              abs_size ubuf_vsize (abs_offset ubuf_vsize voffset) vsize)"
  using assms
  by (auto simp: ubuf_pic_plane_check_offset_def Let_def to_int_nat
      split: option.splits if_splits)

text \<open>
  C10. A refusal can come after the parameters were rewritten. On a picture of 4 by 2
  pixels with a macropixel of 2, the check called with the offsets \<open>(-1, 0)\<close> and the
  sizes \<open>(-1, 1)\<close> returns \<open>false\<close> and leaves the offsets \<open>(3, 0)\<close> and the sizes
  \<open>(1, 1)\<close>: the negative offset was made absolute (\<open>4 - 1 = 3\<close>) and the size \<open>-1\<close>
  was expanded (\<open>4 - 3 = 1\<close>) by lines 145 to 152, and only then the macropixel test
  of line 153 refused them, 3 being odd. The vertical values, which needed no
  conversion, are as they were passed; the horizontal ones are not.
\<close>

theorem check_offset_not_atomic:
  "ubuf_pic_size (spec_mgr yuyv422) one_pic 0 = Some (4, 2, 2)
   \<and> ubuf_pic_plane_check_offset (spec_mgr yuyv422) one_pic 0 ''y8u8y8v8'' (- 1) 0 (- 1) 1
       = Returns (False, 3, 0, 1, 1)
   \<and> abs_offset 4 (- 1) = 3
   \<and> abs_size 4 (abs_offset 4 (- 1)) (- 1) = 1
   \<and> abs_offset 2 0 = 0
   \<and> abs_size 2 (abs_offset 2 0) 1 = 1
   \<and> (3::int) \<noteq> - 1 \<and> (1::int) \<noteq> - 1"
  by (simp add: check_eval)

text \<open>
  C8. With a macropixel of at least 1 and sums \<open>offset + size\<close> that fit an \<open>int\<close>, a
  region is refused (the check returns \<open>false\<close>) whenever its resolved horizontal offset
  or size is not a multiple of the macropixel, and whenever its resolved offset or size
  on an axis is not a multiple of the plane's subsampling on that axis. The macropixel
  is tested first: a region that fails it is refused with the same values for every
  chroma key, also one the manager does not know or whose subsampling could not be
  divided by.
\<close>

theorem misaligned_region_is_refused:
  assumes "ubuf_pic_size mgr s ubuf = Some (ubuf_hsize, ubuf_vsize, macropixel)"
    and "0 < macropixel"
    and "is_int (hoffset + hsize)" and "is_int (voffset + vsize)"
    and "ho = abs_offset ubuf_hsize hoffset" and "vo = abs_offset ubuf_vsize voffset"
    and "hs = abs_size ubuf_hsize ho hsize" and "vs = abs_size ubuf_vsize vo vsize"
  shows "((ho mod int macropixel \<noteq> 0 \<or> hs mod int macropixel \<noteq> 0) \<longrightarrow>
            (\<exists>r. \<forall>c. ubuf_pic_plane_check_offset mgr s ubuf c hoffset voffset hsize vsize
                   = Returns (False, r)))
       \<and> ((ubuf_pic_plane_size mgr s ubuf chroma = Some (stride, hsub, vsub, macropixel_size)
            \<and> 0 < hsub \<and> 0 < vsub
            \<and> (ho mod int hsub \<noteq> 0 \<or> hs mod int hsub \<noteq> 0
               \<or> vo mod int vsub \<noteq> 0 \<or> vs mod int vsub \<noteq> 0)) \<longrightarrow>
            (\<exists>r. ubuf_pic_plane_check_offset mgr s ubuf chroma hoffset voffset hsize vsize
                   = Returns (False, r)))"
  using assms
  by (auto simp: ubuf_pic_plane_check_offset_def Let_def c_mod_eq_0_iff)

theorem misaligned_region_is_refused_witness:
  "ubuf_pic_size (spec_mgr yuyv422) one_pic 0 = Some (4, 2, 2)
   \<and> (\<exists>r. \<forall>c. ubuf_pic_plane_check_offset (spec_mgr yuyv422) one_pic 0 c 1 0 2 1
         = Returns (False, r))
   \<and> ubuf_pic_plane_size (spec_mgr yuv420p) one_pic 0 ''u8'' = Some (2, 2, 2, 1)
   \<and> (\<exists>r. ubuf_pic_plane_check_offset (spec_mgr yuv420p) one_pic 0 ''u8'' 2 1 2 (- 1)
         = Returns (False, r))"
  using misaligned_region_is_refused [where mgr = "spec_mgr yuyv422" and s = one_pic
      and ubuf = 0 and ubuf_hsize = 4 and ubuf_vsize = 2 and macropixel = 2
      and hoffset = 1 and voffset = 0 and hsize = 2 and vsize = 1
      and ho = 1 and vo = 0 and hs = 2 and vs = 1]
    misaligned_region_is_refused [where mgr = "spec_mgr yuv420p" and s = one_pic
      and ubuf = 0 and ubuf_hsize = 4 and ubuf_vsize = 2 and macropixel = 1
      and hoffset = 2 and voffset = 1 and hsize = 2 and vsize = "- 1"
      and ho = 2 and vo = 1 and hs = 2 and vs = 1 and chroma = "''u8''"
      and stride = 2 and hsub = 2 and vsub = 2 and macropixel_size = 1]
  by (simp add: check_eval)

section \<open>The resize check\<close>

lemma neg_mod_eq_0_iff: "((- a) mod (b::int) = 0) = (a mod b = 0)"
  by (simp add: mod_eq_0_iff_dvd)

text \<open>
  What \<open>ubuf_pic_check_resize\<close> returns, for extents that fit an \<open>int\<close>, a macropixel
  of at least 1 and an extension that does not overflow: \<open>nh\<close> and \<open>nv\<close> are the new
  sizes with \<open>-1\<close> resolved.
\<close>

lemma check_resize_eq:
  assumes "ubuf_pic_size mgr s ubuf = Some (ubuf_hsize, ubuf_vsize, macropixel)"
    and "0 < macropixel"
    and "int ubuf_hsize \<le> INT_MAX" and "int ubuf_vsize \<le> INT_MAX"
    and "int ubuf_hsize - hskip \<le> INT_MAX" and "int ubuf_vsize - vskip \<le> INT_MAX"
    and "nh = (if new_hsize = - 1 then int ubuf_hsize - hskip else new_hsize)"
    and "nv = (if new_vsize = - 1 then int ubuf_vsize - vskip else new_vsize)"
  shows "ubuf_pic_check_resize mgr s ubuf hskip vskip new_hsize new_vsize =
     (if hskip \<le> int ubuf_hsize \<and> vskip \<le> int ubuf_vsize
         \<and> - hskip \<le> nh \<and> - vskip \<le> nv
         \<and> hskip mod int macropixel = 0 \<and> nh mod int macropixel = 0
      then Returns (True, hskip, vskip, nh, nv, Some (ubuf_hsize, ubuf_vsize, macropixel))
      else if hskip \<le> int ubuf_hsize \<and> vskip \<le> int ubuf_vsize
      then Returns (False, hskip, vskip, nh, nv, None)
      else Returns (False, hskip, vskip, new_hsize, new_vsize, None))"
proof (cases "hskip \<le> int ubuf_hsize \<and> vskip \<le> int ubuf_vsize")
  case False
  then show ?thesis
    using assms by (auto simp: ubuf_pic_check_resize_def to_int_nat)
next
  case True
  have r: "abs_size ubuf_hsize hskip new_hsize = nh" "abs_size ubuf_vsize vskip new_vsize = nv"
    using assms True
    by (simp_all add: abs_size_def to_int_def INT_MAX_def)
  have i: "is_int (- hskip)" "is_int (- vskip)"
    using assms True by (simp_all add: is_int_def INT_MIN_def INT_MAX_def)
  have m: "0 < int macropixel" using assms(2) by simp
  have al: "((hskip < 0 \<and> c_mod (- hskip) (int macropixel) \<noteq> 0)
             \<or> (hskip > 0 \<and> c_mod hskip (int macropixel) \<noteq> 0)
             \<or> c_mod nh (int macropixel) \<noteq> 0)
            = (\<not> (hskip mod int macropixel = 0 \<and> nh mod int macropixel = 0))"
    using m by (cases "hskip = 0") (auto simp: c_mod_eq_0_iff neg_mod_eq_0_iff)
  show ?thesis
    using assms(1,2) True r i
    by (simp add: ubuf_pic_check_resize_def to_int_nat assms(3,4) al)
qed

text \<open>
  C7. The claim asks for the skip and the final size to be aligned to the macropixel
  on each axis. The code tests the alignment of \<open>hskip\<close> and \<open>new_hsize\<close> only (lines
  283 to 285): on a picture of 4 by 2 pixels with a macropixel of 2, a vertical skip of
  1 and a final height of 1 are accepted.
\<close>

theorem check_resize_counterexample:
  "ubuf_pic_size (spec_mgr yuyv422) one_pic 0 = Some (4, 2, 2)
   \<and> ubuf_pic_check_resize (spec_mgr yuyv422) one_pic 0 0 1 4 1
       = Returns (True, 0, 1, 4, 1, Some (4, 2, 2))
   \<and> (1::int) mod 2 \<noteq> 0"
  by (simp add: check_eval)

text \<open>
  C7, amended. A new size of \<open>-1\<close> is resolved to the extent minus the skip, also for a
  negative skip. The parameters are accepted if and only if on each axis the skip does
  not exceed the extent and the resolved new size is at least minus the skip, and the
  horizontal skip and the final horizontal size are multiples of the macropixel; the
  vertical skip and size are not tested against the macropixel. Otherwise the check
  returns \<open>false\<close>.
\<close>

theorem check_resize_accepts_iff:
  assumes "ubuf_pic_size mgr s ubuf = Some (ubuf_hsize, ubuf_vsize, macropixel)"
    and "0 < macropixel"
    and "int ubuf_hsize \<le> INT_MAX" and "int ubuf_vsize \<le> INT_MAX"
    and "int ubuf_hsize - hskip \<le> INT_MAX" and "int ubuf_vsize - vskip \<le> INT_MAX"
    and "nh = (if new_hsize = - 1 then int ubuf_hsize - hskip else new_hsize)"
    and "nv = (if new_vsize = - 1 then int ubuf_vsize - vskip else new_vsize)"
  shows "ubuf_pic_check_resize mgr s ubuf hskip vskip new_hsize new_vsize =
     (if hskip \<le> int ubuf_hsize \<and> vskip \<le> int ubuf_vsize
         \<and> - hskip \<le> nh \<and> - vskip \<le> nv
         \<and> hskip mod int macropixel = 0 \<and> nh mod int macropixel = 0
      then Returns (True, hskip, vskip, nh, nv, Some (ubuf_hsize, ubuf_vsize, macropixel))
      else if hskip \<le> int ubuf_hsize \<and> vskip \<le> int ubuf_vsize
      then Returns (False, hskip, vskip, nh, nv, None)
      else Returns (False, hskip, vskip, new_hsize, new_vsize, None))"
  using assms by (rule check_resize_eq)

theorem check_resize_accepts_iff_witness:
  "ubuf_pic_size (spec_mgr yuyv422) one_pic 0 = Some (4, 2, 2)
   \<and> ubuf_pic_check_resize (spec_mgr yuyv422) one_pic 0 (- 2) 1 (- 1) (- 1)
       = Returns (True, - 2, 1, 6, 1, Some (4, 2, 2))"
proof -
  have sz: "ubuf_pic_size (spec_mgr yuyv422) one_pic 0 = Some (4, 2, 2)"
    by (simp add: check_eval)
  have "ubuf_pic_check_resize (spec_mgr yuyv422) one_pic 0 (- 2) 1 (- 1) (- 1)
          = Returns (True, - 2, 1, 6, 1, Some (4, 2, 2))"
    by (rule trans, rule check_resize_accepts_iff [OF sz, where nh = 6 and nv = 1])
       (simp_all add: INT_MAX_def)
  with sz show ?thesis by simp
qed

section \<open>Resizing in place\<close>

text \<open>
  C6. The claim: every shrink with \<open>hskip, vskip \<ge> 0\<close>, \<open>new_hsize \<le> E_h - hskip\<close> and
  \<open>new_vsize \<le> E_v - vskip\<close> succeeds. \<open>ubuf_pic_resize\<close> first runs the resize check,
  which refuses a skip that is not a multiple of the macropixel before the manager is
  asked: on a picture of 4 by 2 pixels with a macropixel of 2, skipping 1 pixel and
  keeping 2 is refused, and no request reaches the manager.
\<close>

theorem resize_shrink_counterexample:
  "ubuf_pic_size (spec_mgr yuyv422) one_pic 0 = Some (4, 2, 2)
   \<and> (0::int) \<le> 1 \<and> (0::int) \<le> 0 \<and> (2::int) \<le> 4 - 1 \<and> (2::int) \<le> 2 - 0
   \<and> ubuf_pic_resize (spec_mgr yuyv422) 0 1 0 2 2 one_pic = Returns (False, one_pic, [])"
  by (simp add: check_eval ubuf_pic_resize_def)

text \<open>
  For every manager: a shrink that the resize check accepts is handed to the manager
  with the values as passed, and the answer of the manager is returned; a shrink whose
  horizontal skip or new horizontal size is not a multiple of the macropixel is
  refused by the resize check, and the manager is not asked.
\<close>

lemma resize_shrink_asks_manager:
  assumes "ubuf_pic_size mgr s ubuf = Some (ubuf_hsize, ubuf_vsize, macropixel)"
    and "0 < macropixel"
    and "int ubuf_hsize \<le> INT_MAX" and "int ubuf_vsize \<le> INT_MAX"
    and "0 \<le> hskip" and "0 \<le> vskip"
    and "0 \<le> new_hsize" and "new_hsize \<le> int ubuf_hsize - hskip"
    and "0 \<le> new_vsize" and "new_vsize \<le> int ubuf_vsize - vskip"
    and "hskip mod int macropixel = 0" and "new_hsize mod int macropixel = 0"
  shows "ubuf_pic_resize mgr ubuf hskip vskip new_hsize new_vsize s
           = Returns (fst (resize_picture mgr ubuf hskip vskip new_hsize new_vsize s),
                      snd (resize_picture mgr ubuf hskip vskip new_hsize new_vsize s),
                      [Ev_resize ubuf hskip vskip new_hsize new_vsize
                         (fst (resize_picture mgr ubuf hskip vskip new_hsize new_vsize s))])"
proof -
  have "ubuf_pic_check_resize mgr s ubuf hskip vskip new_hsize new_vsize
      = Returns (True, hskip, vskip, new_hsize, new_vsize,
                 Some (ubuf_hsize, ubuf_vsize, macropixel))"
    using check_resize_eq [OF assms(1,2,3,4), where hskip = hskip and vskip = vskip
        and new_hsize = new_hsize and new_vsize = new_vsize
        and nh = new_hsize and nv = new_vsize] assms(3-12)
    by (simp add: INT_MAX_def)
  then show ?thesis
    by (simp add: ubuf_pic_resize_def split: prod.splits)
qed

lemma resize_shrink_refused:
  assumes "ubuf_pic_size mgr s ubuf = Some (ubuf_hsize, ubuf_vsize, macropixel)"
    and "0 < macropixel"
    and "int ubuf_hsize \<le> INT_MAX" and "int ubuf_vsize \<le> INT_MAX"
    and "0 \<le> hskip" and "0 \<le> vskip"
    and "0 \<le> new_hsize" and "new_hsize \<le> int ubuf_hsize - hskip"
    and "0 \<le> new_vsize" and "new_vsize \<le> int ubuf_vsize - vskip"
    and "hskip mod int macropixel \<noteq> 0 \<or> new_hsize mod int macropixel \<noteq> 0"
  shows "ubuf_pic_resize mgr ubuf hskip vskip new_hsize new_vsize s = Returns (False, s, [])"
proof -
  have "ubuf_pic_check_resize mgr s ubuf hskip vskip new_hsize new_vsize
      = Returns (False, hskip, vskip, new_hsize, new_vsize, None)"
    using check_resize_eq [OF assms(1,2,3,4), where hskip = hskip and vskip = vskip
        and new_hsize = new_hsize and new_vsize = new_vsize
        and nh = new_hsize and nv = new_vsize] assms(3-11)
    by (auto simp: INT_MAX_def)
  then show ?thesis
    by (simp add: ubuf_pic_resize_def)
qed

text \<open>
  The manager of the specification keeps the invariant of section 3 through a resize:
  the extents it installs fit every plane. A shrink of the planar 4:2:0 picture of 4
  by 2 pixels to 3 by 1 passes the resize check, the macropixel being 1, and is
  refused by the manager.
\<close>

lemma spec_resize_size_fits:
  assumes "spec_resize fmt ubuf hskip vskip new_hsize new_vsize s = (True, s')"
  shows "\<exists>p. pics s' ubuf = Some p
           \<and> int (pic_hsize p) = new_hsize \<and> int (pic_vsize p) = new_vsize
           \<and> size_fits (fmt_macropixel fmt) (fmt_planes fmt) (pic_hsize p) (pic_vsize p)"
  using assms by (auto simp: spec_resize_def split: option.splits if_splits)

lemma spec_resize_refuses_odd_size:
  "ubuf_pic_resize (spec_mgr yuv420p) 0 0 0 3 1 one_pic
     = Returns (False, one_pic, [Ev_resize 0 0 0 3 1 False])"
  by (simp add: check_eval ubuf_pic_resize_def spec_resize_def)

text \<open>
  C6, amended. Take extents \<open>(E_h, E_v)\<close> that fit an \<open>int\<close>, a macropixel \<open>m\<close> of at
  least 1, and \<open>hskip, vskip \<ge> 0\<close> with \<open>0 \<le> new_hsize \<le> E_h - hskip\<close> and
  \<open>0 \<le> new_vsize \<le> E_v - vskip\<close>. On the manager of the specification, for a picture
  of these extents: when \<open>hskip\<close> and \<open>new_hsize\<close> are multiples of \<open>m\<close> and the new
  size keeps the invariant of section 3 (\<open>new_hsize\<close> a multiple of \<open>m * hsub\<close> and
  \<open>new_vsize\<close> a multiple of \<open>vsub\<close> for every plane), \<open>ubuf_pic_resize\<close> succeeds and
  the extents are \<open>(new_hsize, new_vsize)\<close> afterwards. On every manager, for a
  picture of these extents: when \<open>hskip\<close> or \<open>new_hsize\<close> is not a multiple of \<open>m\<close>,
  \<open>ubuf_pic_resize\<close> returns \<open>false\<close>, the state is unchanged, and no request has
  reached the manager.
\<close>

theorem resize_shrink_succeeds:
  assumes "0 < m"
    and "int E_h \<le> INT_MAX" and "int E_v \<le> INT_MAX"
    and "0 \<le> hskip" and "0 \<le> vskip"
    and "0 \<le> new_hsize" and "new_hsize \<le> int E_h - hskip"
    and "0 \<le> new_vsize" and "new_vsize \<le> int E_v - vskip"
  shows "(pics t ubuf = Some p \<and> pic_hsize p = E_h \<and> pic_vsize p = E_v
          \<and> fmt_macropixel fmt = m
          \<and> hskip mod int m = 0 \<and> new_hsize mod int m = 0
          \<and> size_fits m (fmt_planes fmt) (nat new_hsize) (nat new_vsize)
          \<longrightarrow> (\<exists>t'. ubuf_pic_resize (spec_mgr fmt) ubuf hskip vskip new_hsize new_vsize t
                      = Returns (True, t',
                          [Ev_resize ubuf hskip vskip new_hsize new_vsize True])
                    \<and> ubuf_pic_size (spec_mgr fmt) t' ubuf
                      = Some (nat new_hsize, nat new_vsize, m)))
       \<and> (ubuf_pic_size mgr s ubuf = Some (E_h, E_v, m)
          \<and> (hskip mod int m \<noteq> 0 \<or> new_hsize mod int m \<noteq> 0)
          \<longrightarrow> ubuf_pic_resize mgr ubuf hskip vskip new_hsize new_vsize s
                = Returns (False, s, []))"
proof (intro conjI impI)
  assume a: "pics t ubuf = Some p \<and> pic_hsize p = E_h \<and> pic_vsize p = E_v
      \<and> fmt_macropixel fmt = m
      \<and> hskip mod int m = 0 \<and> new_hsize mod int m = 0
      \<and> size_fits m (fmt_planes fmt) (nat new_hsize) (nat new_vsize)"
  have sz: "ubuf_pic_size (spec_mgr fmt) t ubuf = Some (E_h, E_v, m)"
    using a by (simp add: ubuf_pic_size_def spec_mgr_def spec_size_def)
  have rs: "resize_picture (spec_mgr fmt) ubuf hskip vskip new_hsize new_vsize t
      = (True, t\<lparr>pics := (pics t)(ubuf \<mapsto>
                  p\<lparr>pic_hsize := nat new_hsize, pic_vsize := nat new_vsize\<rparr>)\<rparr>)"
    using a assms by (simp add: spec_mgr_def spec_resize_def)
  have "ubuf_pic_resize (spec_mgr fmt) ubuf hskip vskip new_hsize new_vsize t
      = Returns (True, t\<lparr>pics := (pics t)(ubuf \<mapsto>
                  p\<lparr>pic_hsize := nat new_hsize, pic_vsize := nat new_vsize\<rparr>)\<rparr>,
                 [Ev_resize ubuf hskip vskip new_hsize new_vsize True])"
    using resize_shrink_asks_manager [OF sz assms] a by (simp add: rs)
  moreover have "ubuf_pic_size (spec_mgr fmt)
      (t\<lparr>pics := (pics t)(ubuf \<mapsto>
                  p\<lparr>pic_hsize := nat new_hsize, pic_vsize := nat new_vsize\<rparr>)\<rparr>) ubuf
      = Some (nat new_hsize, nat new_vsize, m)"
    using a by (simp add: ubuf_pic_size_def spec_mgr_def spec_size_def)
  ultimately show "\<exists>t'. ubuf_pic_resize (spec_mgr fmt) ubuf hskip vskip new_hsize new_vsize t
                      = Returns (True, t',
                          [Ev_resize ubuf hskip vskip new_hsize new_vsize True])
                    \<and> ubuf_pic_size (spec_mgr fmt) t' ubuf
                      = Some (nat new_hsize, nat new_vsize, m)"
    by blast
next
  assume b: "ubuf_pic_size mgr s ubuf = Some (E_h, E_v, m)
      \<and> (hskip mod int m \<noteq> 0 \<or> new_hsize mod int m \<noteq> 0)"
  show "ubuf_pic_resize mgr ubuf hskip vskip new_hsize new_vsize s = Returns (False, s, [])"
    using b assms by (intro resize_shrink_refused [where ubuf_hsize = E_h
          and ubuf_vsize = E_v and macropixel = m]) simp_all
qed

theorem resize_shrink_succeeds_witness:
  "pics one_pic 0 = Some \<lparr>pic_hsize = 4, pic_vsize = 2, pic_refcount = 1, pic_mapped = []\<rparr>
   \<and> fmt_macropixel yuv420p = 1
   \<and> size_fits 1 (fmt_planes yuv420p) 2 2
   \<and> (\<exists>t'. ubuf_pic_resize (spec_mgr yuv420p) 0 2 0 2 2 one_pic
              = Returns (True, t', [Ev_resize 0 2 0 2 2 True])
          \<and> ubuf_pic_size (spec_mgr yuv420p) t' 0 = Some (2, 2, 1))
   \<and> ubuf_pic_size (spec_mgr yuyv422) one_pic 0 = Some (4, 2, 2)
   \<and> ubuf_pic_resize (spec_mgr yuyv422) 0 2 0 1 2 one_pic = Returns (False, one_pic, [])"
  using resize_shrink_succeeds [where m = 1 and E_h = 4 and E_v = 2 and hskip = 2
      and vskip = 0 and new_hsize = 2 and new_vsize = 2 and t = one_pic and ubuf = 0
      and fmt = yuv420p
      and p = "\<lparr>pic_hsize = 4, pic_vsize = 2, pic_refcount = 1, pic_mapped = []\<rparr>",
      THEN conjunct1]
    resize_shrink_succeeds [where m = 2 and E_h = 4 and E_v = 2 and hskip = 2
      and vskip = 0 and new_hsize = 1 and new_vsize = 2 and s = one_pic and ubuf = 0
      and mgr = "spec_mgr yuyv422", THEN conjunct2]
  by (simp add: check_eval INT_MAX_def)

section \<open>The plane accessors\<close>

text \<open>
  What an accessor returns: nothing was asked of the manager, or the check accepted the
  region and the manager was asked with the values the check left.
\<close>

lemma plane_write_Returns:
  assumes "ubuf_pic_plane_write mgr u c ho vo hs vs s = Returns (r, s', ev)"
  shows "(r = None \<and> s' = s \<and> ev = [])
       \<or> (\<exists>ho' vo' hs' vs'.
             ubuf_pic_plane_check_offset mgr s u c ho vo hs vs
               = Returns (True, ho', vo', hs', vs')
             \<and> write_picture_plane mgr u c ho' vo' hs' vs' s = (r, s')
             \<and> ev = [Ev_write u c ho' vo' hs' vs' r])"
  using assms
  by (auto simp: ubuf_pic_plane_write_def split: outcome.splits if_splits prod.splits)

lemma plane_read_Returns:
  assumes "ubuf_pic_plane_read mgr u c ho vo hs vs s = Returns (r, s', ev)"
  shows "(r = None \<and> s' = s \<and> ev = [])
       \<or> (\<exists>ho' vo' hs' vs'.
             ubuf_pic_plane_check_offset mgr s u c ho vo hs vs
               = Returns (True, ho', vo', hs', vs')
             \<and> read_picture_plane mgr u c ho' vo' hs' vs' s = (r, s')
             \<and> ev = [Ev_read u c ho' vo' hs' vs' r])"
  using assms
  by (auto simp: ubuf_pic_plane_read_def split: outcome.splits if_splits prod.splits)

lemma plane_unmap_Returns:
  assumes "ubuf_pic_plane_unmap mgr u c ho vo hs vs s = Returns (r, s', ev)"
  shows "(r = False \<and> s' = s \<and> ev = [])
       \<or> (\<exists>ho' vo' hs' vs'.
             ubuf_pic_plane_check_offset mgr s u c ho vo hs vs
               = Returns (True, ho', vo', hs', vs')
             \<and> unmap_picture_plane mgr u c ho' vo' hs' vs' s = (r, s')
             \<and> ev = [Ev_unmap u c ho' vo' hs' vs' r])"
  using assms
  by (auto simp: ubuf_pic_plane_unmap_def split: outcome.splits if_splits prod.splits)

text \<open>A region without negative values is accepted as it is, or refused.\<close>

lemma check_offset_True_nonneg:
  assumes "ubuf_pic_plane_check_offset mgr s u c ho vo hs vs = Returns (True, ho', vo', hs', vs')"
    and "0 \<le> ho" and "0 \<le> vo" and "0 \<le> hs" and "0 \<le> vs"
  shows "ho' = ho \<and> vo' = vo \<and> hs' = hs \<and> vs' = vs"
  using assms
  by (auto simp: ubuf_pic_plane_check_offset_def abs_offset_def abs_size_def Let_def
      split: option.splits if_splits)

section \<open>The copy\<close>

text \<open>The inner loop copies line \<open>i\<close> from \<open>buffer + i * stride\<close> to \<open>new_buffer + i * new_stride\<close>.\<close>

lemma copy_lines_map:
  "copy_lines n new_buffer buffer new_stride stride w
     = map (\<lambda>i. Ev_memcpy (new_buffer + i * new_stride) (buffer + i * stride) w) [0..<n]"
proof (induction n arbitrary: new_buffer buffer)
  case 0
  show ?case by simp
next
  case (Suc n)
  have "[0..<Suc n] = 0 # map Suc [0..<n]"
    by (simp add: upt_conv_Cons map_Suc_upt del: upt_Suc)
  then show ?case
    by (simp add: Suc.IH comp_def add.assoc del: upt_Suc)
qed

lemma copy_lines_numeral:
  "copy_lines (numeral k) new_buffer buffer new_stride stride w
     = Ev_memcpy new_buffer buffer w
       # copy_lines (pred_numeral k) (new_buffer + new_stride) (buffer + stride)
           new_stride stride w"
  by (simp add: numeral_eq_Suc)

lemma copy_lines_alone: "list_all (leaves_alone u) (copy_lines n a b c d e)"
  by (simp add: copy_lines_map list_all_iff)

text \<open>The body of the loop never writes to, resizes or releases the source.\<close>

lemma copy_plane_alone:
  assumes "copy_plane mgr ubuf new_ubuf macropixel ex c s = Returns (ok, s', ev)"
    and "new_ubuf \<noteq> ubuf"
  shows "list_all (leaves_alone ubuf) ev"
  using assms
  by (auto simp: copy_plane_def copy_lines_alone Let_def
      split: option.splits if_splits outcome.splits prod.splits
      dest!: plane_write_Returns plane_read_Returns plane_unmap_Returns)

text \<open>
  A pass of the body that does not jump to the error label has mapped, copied and
  unmapped exactly the region it was given.
\<close>

lemma copy_plane_True:
  assumes "copy_plane mgr ubuf new_ubuf macropixel ex c s = Returns (True, s', ev)"
    and "0 \<le> ex_hoffset ex" and "0 \<le> ex_voffset ex" and "0 \<le> ex_hskip ex"
    and "0 \<le> ex_vskip ex" and "0 \<le> ex_hsize ex" and "0 \<le> ex_vsize ex"
  shows "\<exists>p. pc_chroma p = c \<and> pc_state p = s
           \<and> plane_answers mgr ubuf new_ubuf ex p
           \<and> snd (plane_calls mgr ubuf new_ubuf ex p) = s'
           \<and> Ev_iterate ubuf (Some (Some c)) # ev
               = plane_transfer ubuf new_ubuf macropixel ex p"
proof -
  from assms(1) obtain stride hsub vsub ms new_stride where
    ps: "ubuf_pic_plane_size mgr s ubuf c = Some (stride, hsub, vsub, ms)"
    and pn: "ubuf_pic_plane_size mgr s new_ubuf c = Some (new_stride, hsub, vsub, ms)"
    by (auto simp: copy_plane_def split: option.splits if_splits)
  from assms(1) ps pn obtain nb s1 ev1 where
    w: "ubuf_pic_plane_write mgr new_ubuf c (ex_hoffset ex) (ex_voffset ex) (ex_hsize ex)
          (ex_vsize ex) s = Returns (Some nb, s1, ev1)"
    by (auto simp: copy_plane_def split: option.splits if_splits outcome.splits)
  from assms(1) ps pn w obtain b s2 ev2 where
    r: "ubuf_pic_plane_read mgr ubuf c (ex_hskip ex) (ex_vskip ex) (ex_hsize ex)
          (ex_vsize ex) s1 = Returns (Some b, s2, ev2)"
    by (auto simp: copy_plane_def split: option.splits if_splits outcome.splits)
  from assms(1) ps pn w r have nz: "0 < hsub" "0 < vsub" "0 < macropixel"
    by (auto simp: copy_plane_def split: option.splits if_splits outcome.splits)
  from assms(1) ps pn w r nz obtain s3 ev3 ev4 where
    u1: "ubuf_pic_plane_unmap mgr new_ubuf c (ex_hoffset ex) (ex_voffset ex) (ex_hsize ex)
          (ex_vsize ex) s2 = Returns (True, s3, ev3)"
    and u2: "ubuf_pic_plane_unmap mgr ubuf c (ex_hskip ex) (ex_vskip ex) (ex_hsize ex)
          (ex_vsize ex) s3 = Returns (True, s', ev4)"
    and ev: "ev = ev1 @ ev2
        @ copy_lines (nat (c_div (ex_vsize ex) (int vsub))) nb b new_stride stride
            (nat (c_div (c_div (ex_hsize ex) (int hsub)) (int macropixel) * int ms))
        @ ev3 @ ev4"
    by (auto simp: copy_plane_def Let_def split: option.splits if_splits outcome.splits)
  have e1: "ev1 = [Ev_write new_ubuf c (ex_hoffset ex) (ex_voffset ex) (ex_hsize ex)
                     (ex_vsize ex) (Some nb)]
            \<and> write_picture_plane mgr new_ubuf c (ex_hoffset ex) (ex_voffset ex)
                (ex_hsize ex) (ex_vsize ex) s = (Some nb, s1)"
    using plane_write_Returns [OF w] check_offset_True_nonneg assms(2-7) by fastforce
  have e2: "ev2 = [Ev_read ubuf c (ex_hskip ex) (ex_vskip ex) (ex_hsize ex)
                     (ex_vsize ex) (Some b)]
            \<and> read_picture_plane mgr ubuf c (ex_hskip ex) (ex_vskip ex)
                (ex_hsize ex) (ex_vsize ex) s1 = (Some b, s2)"
    using plane_read_Returns [OF r] check_offset_True_nonneg assms(2-7) by fastforce
  have e3: "ev3 = [Ev_unmap new_ubuf c (ex_hoffset ex) (ex_voffset ex) (ex_hsize ex)
                     (ex_vsize ex) True]
            \<and> unmap_picture_plane mgr new_ubuf c (ex_hoffset ex) (ex_voffset ex)
                (ex_hsize ex) (ex_vsize ex) s2 = (True, s3)"
    using plane_unmap_Returns [OF u1] check_offset_True_nonneg assms(2-7) by fastforce
  have e4: "ev4 = [Ev_unmap ubuf c (ex_hskip ex) (ex_vskip ex) (ex_hsize ex)
                     (ex_vsize ex) True]
            \<and> unmap_picture_plane mgr ubuf c (ex_hskip ex) (ex_vskip ex)
                (ex_hsize ex) (ex_vsize ex) s3 = (True, s')"
    using plane_unmap_Returns [OF u2] check_offset_True_nonneg assms(2-7) by fastforce
  have d1: "c_div (ex_vsize ex) (int vsub) = ex_vsize ex div int vsub"
    using assms(7) nz by (simp add: c_div_nonneg)
  have d2: "c_div (c_div (ex_hsize ex) (int hsub)) (int macropixel)
              = ex_hsize ex div int hsub div int macropixel"
    using assms(6) nz by (simp add: c_div_nonneg pos_imp_zdiv_nonneg_iff)
  let ?p = "\<lparr>pc_chroma = c, pc_state = s, pc_stride = stride, pc_new_stride = new_stride,
             pc_hsub = hsub, pc_vsub = vsub, pc_macropixel_size = ms,
             pc_buffer = b, pc_new_buffer = nb\<rparr>"
  have t: "Ev_iterate ubuf (Some (Some c)) # ev
             = plane_transfer ubuf new_ubuf macropixel ex ?p"
    by (simp add: plane_transfer_def ev e1 e2 e3 e4 d1 d2 copy_lines_map)
  have k: "plane_calls mgr ubuf new_ubuf ex ?p = ((Some nb, Some b, True, True), s')"
    by (simp add: plane_calls_def e1 e2 e3 e4)
  have "plane_answers mgr ubuf new_ubuf ex ?p"
    using ps pn nz by (simp add: plane_answers_def k)
  with t k show ?thesis
    by (intro exI [of _ ?p]) simp
qed

lemma copy_planes_alone:
  assumes "copy_planes fuel mgr ubuf new_ubuf macropixel ex cursor s = Returns (ok, s', ev)"
    and "new_ubuf \<noteq> ubuf"
  shows "list_all (leaves_alone ubuf) ev"
  using assms
proof (induction fuel arbitrary: cursor s ok s' ev)
  case 0
  then show ?case by simp
next
  case (Suc fuel)
  show ?case
  proof (cases "ubuf_pic_plane_iterate mgr s ubuf cursor")
    case None
    with Suc.prems show ?thesis by auto
  next
    case (Some nxt)
    show ?thesis
    proof (cases nxt)
      case None
      with Some Suc.prems show ?thesis by auto
    next
      case (Some c)
      with \<open>ubuf_pic_plane_iterate mgr s ubuf cursor = Some nxt\<close> Suc.prems(1)
      obtain ok1 s1 ev1 where
        b: "copy_plane mgr ubuf new_ubuf macropixel ex c s = Returns (ok1, s1, ev1)"
        by (auto split: outcome.splits)
      have a1: "list_all (leaves_alone ubuf) ev1"
        using copy_plane_alone [OF b Suc.prems(2)] .
      show ?thesis
      proof (cases ok1)
        case False
        with Some \<open>ubuf_pic_plane_iterate mgr s ubuf cursor = Some nxt\<close> Suc.prems(1) b a1
        show ?thesis by auto
      next
        case True
        with Some \<open>ubuf_pic_plane_iterate mgr s ubuf cursor = Some nxt\<close> Suc.prems(1) b
        obtain ev2 where
          l: "copy_planes fuel mgr ubuf new_ubuf macropixel ex (Some c) s1
                = Returns (ok, s', ev2)"
          and e: "ev = Ev_iterate ubuf (Some (Some c)) # ev1 @ ev2"
          by (auto split: outcome.splits)
        have "list_all (leaves_alone ubuf) ev2"
          using Suc.IH [OF l Suc.prems(2)] .
        with a1 e show ?thesis by simp
      qed
    qed
  qed
qed

lemma copy_planes_True:
  assumes "copy_planes fuel mgr ubuf new_ubuf macropixel ex cursor s = Returns (True, s', ev)"
    and "0 \<le> ex_hoffset ex" and "0 \<le> ex_voffset ex" and "0 \<le> ex_hskip ex"
    and "0 \<le> ex_vskip ex" and "0 \<le> ex_hsize ex" and "0 \<le> ex_vsize ex"
  shows "\<exists>planes final.
           planes_follow mgr ubuf new_ubuf ex cursor s planes final s'
           \<and> ev = concat (map (plane_transfer ubuf new_ubuf macropixel ex) planes)
                  @ [Ev_iterate ubuf final]"
  using assms(1)
proof (induction fuel arbitrary: cursor s ev)
  case 0
  then show ?case by simp
next
  case (Suc fuel)
  show ?case
  proof (cases "ubuf_pic_plane_iterate mgr s ubuf cursor")
    case None
    with Suc.prems have "s' = s" "ev = [Ev_iterate ubuf None]"
      by auto
    with None show ?thesis by (intro exI [of _ "[]"] exI [of _ None]) simp
  next
    case (Some nxt)
    show ?thesis
    proof (cases nxt)
      case None
      with Some Suc.prems have "s' = s" "ev = [Ev_iterate ubuf (Some None)]"
        by auto
      with None Some show ?thesis by (intro exI [of _ "[]"] exI [of _ "Some None"]) simp
    next
      case (Some c)
      with \<open>ubuf_pic_plane_iterate mgr s ubuf cursor = Some nxt\<close> Suc.prems(1)
      obtain s1 ev1 ev2 where
        b: "copy_plane mgr ubuf new_ubuf macropixel ex c s = Returns (True, s1, ev1)"
        and l: "copy_planes fuel mgr ubuf new_ubuf macropixel ex (Some c) s1
                = Returns (True, s', ev2)"
        and e: "ev = Ev_iterate ubuf (Some (Some c)) # ev1 @ ev2"
        by (auto split: outcome.splits if_splits)
      from copy_plane_True [OF b assms(2-7)] obtain p where
        p: "pc_chroma p = c" "pc_state p = s"
           "plane_answers mgr ubuf new_ubuf ex p"
           "snd (plane_calls mgr ubuf new_ubuf ex p) = s1"
           "Ev_iterate ubuf (Some (Some c)) # ev1
              = plane_transfer ubuf new_ubuf macropixel ex p"
        by blast
      from Suc.IH [OF l] obtain planes final where
        r: "planes_follow mgr ubuf new_ubuf ex (Some c) s1 planes final s'"
           "ev2 = concat (map (plane_transfer ubuf new_ubuf macropixel ex) planes)
                   @ [Ev_iterate ubuf final]"
        by blast
      have "ev = concat (map (plane_transfer ubuf new_ubuf macropixel ex) (p # planes))
                   @ [Ev_iterate ubuf final]"
        using e p(5) r(2) by (metis append_Cons append_assoc concat.simps(2) list.simps(9))
      moreover have "planes_follow mgr ubuf new_ubuf ex cursor s (p # planes) final s'"
        using \<open>ubuf_pic_plane_iterate mgr s ubuf cursor = Some nxt\<close> Some p(1-4) r(1)
        by simp
      ultimately show ?thesis
        by (intro exI [of _ "p # planes"] exI [of _ final]) simp
    qed
  qed
qed

text \<open>
  The manager determines the planes of a copy: two lists that follow the iterator from
  the same cursor and state are the same list, with the same last answer and state.
\<close>

lemma planes_follow_unique:
  assumes "planes_follow mgr ubuf new_ubuf ex cursor s planes final s'"
    and "planes_follow mgr ubuf new_ubuf ex cursor s planes2 final2 s2"
  shows "planes2 = planes \<and> final2 = final \<and> s2 = s'"
  using assms
proof (induction planes arbitrary: cursor s planes2)
  case Nil
  then show ?case by (cases planes2) auto
next
  case (Cons p ps)
  from Cons.prems obtain q qs where c: "planes2 = q # qs"
    by (cases planes2) auto
  from Cons.prems c have k: "pc_chroma q = pc_chroma p" "pc_state q = pc_state p"
      "plane_answers mgr ubuf new_ubuf ex p" "plane_answers mgr ubuf new_ubuf ex q"
    by auto
  have pq: "q = p"
  proof (rule plane_copy.equality)
    show "pc_chroma q = pc_chroma p" "pc_state q = pc_state p"
      by (rule k)+
    have z: "plane_calls mgr ubuf new_ubuf ex q = plane_calls mgr ubuf new_ubuf ex p"
      by (simp add: plane_calls_def k(1,2))
    from k(3,4) show "pc_stride q = pc_stride p" "pc_new_stride q = pc_new_stride p"
        "pc_hsub q = pc_hsub p" "pc_vsub q = pc_vsub p"
        "pc_macropixel_size q = pc_macropixel_size p"
        "pc_buffer q = pc_buffer p" "pc_new_buffer q = pc_new_buffer p"
      by (simp_all add: plane_answers_def k(1,2) z)
  qed simp
  from Cons.prems c pq have
    "planes_follow mgr ubuf new_ubuf ex (Some (pc_chroma p))
       (snd (plane_calls mgr ubuf new_ubuf ex p)) ps final s'"
    "planes_follow mgr ubuf new_ubuf ex (Some (pc_chroma p))
       (snd (plane_calls mgr ubuf new_ubuf ex p)) qs final2 s2"
    by auto
  from Cons.IH [OF this] c pq show ?case by simp
qed

text \<open>
  For values that fit an \<open>int\<close> and are not negative, the comparison in \<open>size_t\<close> is the
  comparison of the integers, and the extracted size is the minimum.
\<close>

lemma extract_size_min:
  assumes "0 \<le> new_size - extract_offset skip" and "new_size - extract_offset skip \<le> INT_MAX"
    and "0 \<le> int ubuf_size - extract_skip skip" and "int ubuf_size - extract_skip skip \<le> INT_MAX"
  shows "extract_size skip new_size ubuf_size
           = min (new_size - extract_offset skip) (int ubuf_size - extract_skip skip)"
proof -
  have a: "to_size_t (new_size - extract_offset skip) = new_size - extract_offset skip"
    using assms(1,2) by (simp add: to_size_t_def INT_MAX_def)
  have b: "to_size_t (int ubuf_size - extract_skip skip) = int ubuf_size - extract_skip skip"
    using assms(3,4) by (simp add: to_size_t_def INT_MAX_def)
  have c: "to_int (new_size - extract_offset skip) = new_size - extract_offset skip"
    using assms(1,2) by (simp add: to_int_def INT_MAX_def)
  have d: "to_int (int ubuf_size - extract_skip skip) = int ubuf_size - extract_skip skip"
    using assms(3,4) by (simp add: to_int_def INT_MAX_def)
  show ?thesis
    unfolding extract_size_def a b c d by (simp add: min_def)
qed

text \<open>The ways \<open>ubuf_pic_copy\<close> returns.\<close>

lemma copy_Some:
  assumes "ubuf_pic_copy fuel mgr ubuf hskip vskip new_hsize new_vsize s
             = Returns (Some new_ubuf, s', ev)"
  obtains nh nv ubuf_hsize ubuf_vsize macropixel s1 ev' where
    "ubuf_pic_check_resize mgr s ubuf hskip vskip new_hsize new_vsize
       = Returns (True, hskip, vskip, nh, nv, Some (ubuf_hsize, ubuf_vsize, macropixel))"
    and "ubuf_pic_alloc mgr nh nv s = (Some new_ubuf, s1)"
    and "copy_planes fuel mgr ubuf new_ubuf macropixel
           \<lparr>ex_hoffset = extract_offset hskip, ex_voffset = extract_offset vskip,
            ex_hskip = extract_skip hskip, ex_vskip = extract_skip vskip,
            ex_hsize = extract_size hskip nh ubuf_hsize,
            ex_vsize = extract_size vskip nv ubuf_vsize\<rparr> None s1
          = Returns (True, s', ev')"
    and "ev = Ev_alloc nh nv (Some new_ubuf) # ev'"
proof -
  from assms obtain ok hs vs nh nv ubuf_hsize ubuf_vsize macropixel where
    c: "ubuf_pic_check_resize mgr s ubuf hskip vskip new_hsize new_vsize
          = Returns (ok, hs, vs, nh, nv, Some (ubuf_hsize, ubuf_vsize, macropixel))"
    by (auto simp: ubuf_pic_copy_def split: outcome.splits option.splits)
  then have k: "ok" "hs = hskip" "vs = vskip"
    by (auto simp: ubuf_pic_check_resize_def Let_def split: option.splits if_splits)
  from assms c obtain s1 where
    a: "ubuf_pic_alloc mgr nh nv s = (Some new_ubuf, s1)"
    by (auto simp: ubuf_pic_copy_def split: outcome.splits option.splits prod.splits if_splits)
  from assms c a k obtain ev' where
    "copy_planes fuel mgr ubuf new_ubuf macropixel
           \<lparr>ex_hoffset = extract_offset hskip, ex_voffset = extract_offset vskip,
            ex_hskip = extract_skip hskip, ex_vskip = extract_skip vskip,
            ex_hsize = extract_size hskip nh ubuf_hsize,
            ex_vsize = extract_size vskip nv ubuf_vsize\<rparr> None s1
          = Returns (True, s', ev')"
    "ev = Ev_alloc nh nv (Some new_ubuf) # ev'"
    by (auto simp: ubuf_pic_copy_def split: outcome.splits option.splits prod.splits if_splits)
  with c a k show ?thesis
    by (intro that) simp_all
qed

lemma copy_Returns:
  assumes "ubuf_pic_copy fuel mgr ubuf hskip vskip new_hsize new_vsize s = Returns (r, s', ev)"
  shows "(r = None \<and> s' = s \<and> ev = [])
       \<or> (\<exists>h v. r = None \<and> ev = [Ev_alloc h v None])
       \<or> (\<exists>h v new_ubuf s1. ubuf_pic_alloc mgr h v s = (Some new_ubuf, s1)
             \<and> r = None \<and> s' = free_ubuf mgr new_ubuf s1
             \<and> ev = [Ev_alloc h v (Some new_ubuf), Ev_free new_ubuf])
       \<or> (\<exists>h v new_ubuf s1 ok s2 ev' m ex.
             ubuf_pic_alloc mgr h v s = (Some new_ubuf, s1)
             \<and> copy_planes fuel mgr ubuf new_ubuf m ex None s1 = Returns (ok, s2, ev')
             \<and> r = (if ok then Some new_ubuf else None)
             \<and> s' = (if ok then s2 else free_ubuf mgr new_ubuf s2)
             \<and> ev = Ev_alloc h v (Some new_ubuf) # ev' @ (if ok then [] else [Ev_free new_ubuf]))"
proof (cases "ubuf_pic_check_resize mgr s ubuf hskip vskip new_hsize new_vsize")
  case (Returns c)
  obtain ok hs vs nh nv sizes where c: "c = (ok, hs, vs, nh, nv, sizes)"
    by (cases c) auto
  show ?thesis
  proof (cases sizes)
    case None
    with assms Returns c show ?thesis by (simp add: ubuf_pic_copy_def)
  next
    case (Some sz)
    obtain uh uv m where sz: "sz = (uh, uv, m)" by (cases sz) auto
    obtain a s1 where al: "ubuf_pic_alloc mgr nh nv s = (a, s1)"
      by (cases "ubuf_pic_alloc mgr nh nv s") auto
    show ?thesis
    proof (cases a)
      case None
      with assms Returns c Some sz al show ?thesis by (auto simp: ubuf_pic_copy_def)
    next
      case new: (Some new_ubuf)
      show ?thesis
      proof (cases "ubuf_pic_size mgr s1 new_ubuf")
        case None
        with assms Returns c Some sz al new show ?thesis
          by (auto simp: ubuf_pic_copy_def)
      next
        case nsz: (Some nz)
        obtain nuh nuv nm where nz: "nz = (nuh, nuv, nm)" by (cases nz) auto
        show ?thesis
        proof (cases "nm = m")
          case False
          with assms Returns c Some sz al new nsz nz show ?thesis
            by (auto simp: ubuf_pic_copy_def)
        next
          case True
          let ?ex = "\<lparr>ex_hoffset = extract_offset hs, ex_voffset = extract_offset vs,
                     ex_hskip = extract_skip hs, ex_vskip = extract_skip vs,
                     ex_hsize = extract_size hs nh uh, ex_vsize = extract_size vs nv uv\<rparr>"
          from assms Returns c Some sz al new nsz nz True
          obtain ok2 s2 ev' where
            l: "copy_planes fuel mgr ubuf new_ubuf m ?ex None s1 = Returns (ok2, s2, ev')"
            by (auto simp: ubuf_pic_copy_def split: outcome.splits)
          with assms Returns c Some sz al new nsz nz True
          have "r = (if ok2 then Some new_ubuf else None)
                \<and> s' = (if ok2 then s2 else free_ubuf mgr new_ubuf s2)
                \<and> ev = Ev_alloc nh nv (Some new_ubuf) # ev'
                         @ (if ok2 then [] else [Ev_free new_ubuf])"
            by (auto simp: ubuf_pic_copy_def split: if_splits)
          with al new l show ?thesis by blast
        qed
      qed
    qed
  qed
next
  case Undefined
  with assms show ?thesis by (simp add: ubuf_pic_copy_def)
next
  case Out_of_fuel
  with assms show ?thesis by (simp add: ubuf_pic_copy_def)
qed

lemma leaves_alone_not_freed: "list_all (leaves_alone u) ev \<Longrightarrow> Ev_free u \<notin> set ev"
  by (induction ev) auto

text \<open>
  If the allocator does not hand out the address of the source, no call of
  \<open>ubuf_pic_copy\<close> writes to, resizes or releases the source, whatever it returns.
\<close>

lemma copy_alone:
  assumes "ubuf_pic_copy fuel mgr ubuf hskip vskip new_hsize new_vsize s = Returns (r, s', ev)"
    and "\<And>hsize vsize. fst (alloc_picture mgr hsize vsize s) \<noteq> Some ubuf"
  shows "list_all (leaves_alone ubuf) ev \<and> r \<noteq> Some ubuf"
proof -
  have fresh: "new_ubuf \<noteq> ubuf" if "ubuf_pic_alloc mgr h v s = (Some new_ubuf, s1)"
    for h v new_ubuf s1
    using assms(2) [of h v] that by (auto simp: ubuf_pic_alloc_def)
  from copy_Returns [OF assms(1)] show ?thesis
  proof (elim disjE exE conjE)
    fix h v new_ubuf s1 ok s2 ev' m ex
    assume a: "ubuf_pic_alloc mgr h v s = (Some new_ubuf, s1)"
      and l: "copy_planes fuel mgr ubuf new_ubuf m ex None s1 = Returns (ok, s2, ev')"
      and r: "r = (if ok then Some new_ubuf else None)"
      and e: "ev = Ev_alloc h v (Some new_ubuf) # ev' @ (if ok then [] else [Ev_free new_ubuf])"
    have "list_all (leaves_alone ubuf) ev'"
      using copy_planes_alone [OF l fresh [OF a]] .
    with fresh [OF a] r e show ?thesis by simp
  qed (auto dest: fresh)
qed

text \<open>
  Whenever \<open>ubuf_pic_copy\<close> returns \<open>NULL\<close> after the new buffer was allocated, its last
  call released that buffer.
\<close>

lemma copy_None:
  assumes "ubuf_pic_copy fuel mgr ubuf hskip vskip new_hsize new_vsize s = Returns (None, s', ev)"
  shows "ev = [] \<or> (\<exists>h v. ev = [Ev_alloc h v None])
       \<or> (\<exists>h v new_ubuf ev' s2. ev = Ev_alloc h v (Some new_ubuf) # ev' @ [Ev_free new_ubuf]
             \<and> s' = free_ubuf mgr new_ubuf s2)"
  using copy_Returns [OF assms]
  by (elim disjE exE conjE) (auto split: if_splits)

text \<open>
  The fuel. Nothing but the loop over the planes can run out of it. If the iterator
  moves down a rank at every step, fuel above the rank of the start is enough; and a
  run that has returned returns the same with more fuel.
\<close>

lemma check_offset_fuel:
  "ubuf_pic_plane_check_offset mgr s u c ho vo hs vs \<noteq> Out_of_fuel"
  by (simp add: ubuf_pic_plane_check_offset_def Let_def split: option.splits)

lemma plane_write_fuel: "ubuf_pic_plane_write mgr u c ho vo hs vs s \<noteq> Out_of_fuel"
  using check_offset_fuel [of mgr s u c ho vo hs vs]
  by (simp add: ubuf_pic_plane_write_def split: outcome.splits prod.splits)

lemma plane_read_fuel: "ubuf_pic_plane_read mgr u c ho vo hs vs s \<noteq> Out_of_fuel"
  using check_offset_fuel [of mgr s u c ho vo hs vs]
  by (simp add: ubuf_pic_plane_read_def split: outcome.splits prod.splits)

lemma plane_unmap_fuel: "ubuf_pic_plane_unmap mgr u c ho vo hs vs s \<noteq> Out_of_fuel"
  using check_offset_fuel [of mgr s u c ho vo hs vs]
  by (simp add: ubuf_pic_plane_unmap_def split: outcome.splits prod.splits)

lemma copy_plane_fuel: "copy_plane mgr ubuf new_ubuf macropixel ex c s \<noteq> Out_of_fuel"
  by (auto simp: copy_plane_def Let_def plane_write_fuel plane_read_fuel plane_unmap_fuel
      split: option.splits outcome.splits prod.splits)

lemma copy_planes_enough_fuel:
  assumes "\<And>s c c'. ubuf_pic_plane_iterate mgr s ubuf c = Some (Some c')
                      \<Longrightarrow> rank (Some c') < rank c"
    and "rank cursor < fuel"
  shows "copy_planes fuel mgr ubuf new_ubuf macropixel ex cursor s \<noteq> Out_of_fuel"
  using assms(2)
proof (induction fuel arbitrary: cursor s)
  case 0
  then show ?case by simp
next
  case (Suc fuel)
  show ?case
  proof (cases "ubuf_pic_plane_iterate mgr s ubuf cursor")
    case None
    then show ?thesis by simp
  next
    case (Some nxt)
    show ?thesis
    proof (cases nxt)
      case None
      with Some show ?thesis by simp
    next
      case c: (Some c)
      have "rank (Some c) < rank cursor"
        using assms(1) Some c by simp
      with Suc.prems have "rank (Some c) < fuel" by simp
      then have "copy_planes fuel mgr ubuf new_ubuf macropixel ex (Some c) s1 \<noteq> Out_of_fuel"
        for s1
        by (rule Suc.IH)
      with Some c copy_plane_fuel [of mgr ubuf new_ubuf macropixel ex c s] show ?thesis
        by (auto split: outcome.splits)
    qed
  qed
qed

lemma check_resize_fuel:
  "ubuf_pic_check_resize mgr s ubuf hskip vskip new_hsize new_vsize \<noteq> Out_of_fuel"
  by (simp add: ubuf_pic_check_resize_def Let_def split: option.splits)

lemma copy_enough_fuel:
  assumes "\<And>s c c'. ubuf_pic_plane_iterate mgr s ubuf c = Some (Some c')
                      \<Longrightarrow> rank (Some c') < rank c"
    and "rank None < fuel"
  shows "ubuf_pic_copy fuel mgr ubuf hskip vskip new_hsize new_vsize s \<noteq> Out_of_fuel"
  using check_resize_fuel [of mgr s ubuf hskip vskip new_hsize new_vsize]
    copy_planes_enough_fuel [of mgr ubuf rank None fuel, OF assms]
  by (auto simp: ubuf_pic_copy_def split: outcome.splits option.splits prod.splits)

lemma copy_planes_more_fuel:
  assumes "copy_planes fuel mgr ubuf new_ubuf macropixel ex cursor s = r"
    and "r \<noteq> Out_of_fuel"
  shows "copy_planes (fuel + k) mgr ubuf new_ubuf macropixel ex cursor s = r"
  using assms
proof (induction fuel arbitrary: cursor s r)
  case 0
  then show ?case by simp
next
  case (Suc fuel)
  show ?case
  proof (cases "ubuf_pic_plane_iterate mgr s ubuf cursor")
    case None
    with Suc.prems show ?thesis by simp
  next
    case (Some nxt)
    show ?thesis
    proof (cases nxt)
      case None
      with Some Suc.prems show ?thesis by simp
    next
      case c: (Some c)
      show ?thesis
      proof (cases "copy_plane mgr ubuf new_ubuf macropixel ex c s")
        case (Returns b)
        obtain ok s1 ev1 where b: "b = (ok, s1, ev1)" by (cases b) auto
        show ?thesis
        proof (cases ok)
          case False
          with Some c Returns b Suc.prems show ?thesis by simp
        next
          case True
          have n: "copy_planes fuel mgr ubuf new_ubuf macropixel ex (Some c) s1 \<noteq> Out_of_fuel"
            using Some c Returns b True Suc.prems by (auto split: outcome.splits)
          have "copy_planes (fuel + k) mgr ubuf new_ubuf macropixel ex (Some c) s1
                  = copy_planes fuel mgr ubuf new_ubuf macropixel ex (Some c) s1"
            using Suc.IH [OF refl n] .
          with Some c Returns b True Suc.prems show ?thesis by simp
        qed
      next
        case Undefined
        with Some c Suc.prems show ?thesis by simp
      next
        case Out_of_fuel
        with Some c Suc.prems show ?thesis by simp
      qed
    qed
  qed
qed

lemma copy_more_fuel:
  assumes "ubuf_pic_copy fuel mgr ubuf hskip vskip new_hsize new_vsize s = r"
    and "r \<noteq> Out_of_fuel"
  shows "ubuf_pic_copy (fuel + k) mgr ubuf hskip vskip new_hsize new_vsize s = r"
proof (cases "ubuf_pic_check_resize mgr s ubuf hskip vskip new_hsize new_vsize")
  case (Returns c)
  obtain ok hs vs nh nv sizes where c: "c = (ok, hs, vs, nh, nv, sizes)"
    by (cases c) auto
  show ?thesis
  proof (cases sizes)
    case None
    with assms Returns c show ?thesis by (simp add: ubuf_pic_copy_def)
  next
    case (Some sz)
    obtain uh uv m where sz: "sz = (uh, uv, m)" by (cases sz) auto
    obtain a s1 where al: "ubuf_pic_alloc mgr nh nv s = (a, s1)"
      by (cases "ubuf_pic_alloc mgr nh nv s") auto
    show ?thesis
    proof (cases a)
      case None
      with assms Returns c Some sz al show ?thesis by (simp add: ubuf_pic_copy_def)
    next
      case new: (Some new_ubuf)
      show ?thesis
      proof (cases "ubuf_pic_size mgr s1 new_ubuf")
        case None
        with assms Returns c Some sz al new show ?thesis
          by (simp add: ubuf_pic_copy_def)
      next
        case nsz: (Some nz)
        obtain nuh nuv nm where nz: "nz = (nuh, nuv, nm)" by (cases nz) auto
        show ?thesis
        proof (cases "nm = m")
          case False
          with assms Returns c Some sz al new nsz nz show ?thesis
            by (simp add: ubuf_pic_copy_def)
        next
          case True
          let ?ex = "\<lparr>ex_hoffset = extract_offset hs, ex_voffset = extract_offset vs,
                     ex_hskip = extract_skip hs, ex_vskip = extract_skip vs,
                     ex_hsize = extract_size hs nh uh, ex_vsize = extract_size vs nv uv\<rparr>"
          have n: "copy_planes fuel mgr ubuf new_ubuf m ?ex None s1 \<noteq> Out_of_fuel"
            using assms Returns c Some sz al new nsz nz True
            by (auto simp: ubuf_pic_copy_def)
          have "copy_planes (fuel + k) mgr ubuf new_ubuf m ?ex None s1
                  = copy_planes fuel mgr ubuf new_ubuf m ?ex None s1"
            using copy_planes_more_fuel [OF refl n] .
          with assms Returns c Some sz al new nsz nz True show ?thesis
            by (simp add: ubuf_pic_copy_def)
        qed
      qed
    qed
  qed
next
  case Undefined
  with assms show ?thesis by (simp add: ubuf_pic_copy_def)
next
  case Out_of_fuel
  with assms show ?thesis by (simp add: ubuf_pic_copy_def)
qed

lemma plane_after_key:
  "plane_after ps c = Some (Some c') \<Longrightarrow> c' \<in> fst ` set ps"
  by (induction ps c rule: plane_after.induct) (auto split: if_splits list.splits)

lemma plane_after_left:
  "distinct (map fst ps) \<Longrightarrow> plane_after ps c = Some (Some c')
     \<Longrightarrow> planes_left ps c' < planes_left ps c"
proof (induction ps c rule: plane_after.induct)
  case (1 c)
  then show ?case by simp
next
  case (2 k d ps c)
  show ?case
  proof (cases "k = c")
    case True
    with "2.prems" obtain d' ps' where ps: "ps = (c', d') # ps'"
      by (auto split: list.splits)
    with "2.prems" True have "k \<noteq> c'" by auto
    with True ps show ?thesis by simp
  next
    case False
    with "2.prems" have a: "plane_after ps c = Some (Some c')" by simp
    from plane_after_key [OF a] "2.prems"(1) have "k \<noteq> c'" by auto
    with False a "2.IH" "2.prems"(1) show ?thesis by simp
  qed
qed

text \<open>
  On the manager of the specification, with plane keys that are all different, a copy
  given more fuel than there are planes does not run out of it.
\<close>

lemma spec_copy_enough_fuel:
  assumes "distinct (map fst (fmt_planes fmt))" and "length (fmt_planes fmt) < fuel"
  shows "ubuf_pic_copy fuel (spec_mgr fmt) ubuf hskip vskip new_hsize new_vsize s
           \<noteq> Out_of_fuel"
proof (rule copy_enough_fuel
    [where rank = "\<lambda>c. case c of None \<Rightarrow> length (fmt_planes fmt)
                              | Some k \<Rightarrow> planes_left (fmt_planes fmt) k"])
  fix s c c'
  assume i: "ubuf_pic_plane_iterate (spec_mgr fmt) s ubuf c = Some (Some c')"
  show "(case Some c' of None \<Rightarrow> length (fmt_planes fmt)
                       | Some k \<Rightarrow> planes_left (fmt_planes fmt) k)
      < (case c of None \<Rightarrow> length (fmt_planes fmt)
                 | Some k \<Rightarrow> planes_left (fmt_planes fmt) k)"
  proof (cases c)
    case None
    with i show ?thesis
      by (cases "fmt_planes fmt")
         (auto simp: ubuf_pic_plane_iterate_def spec_mgr_def spec_iterate_def
           split: option.splits)
  next
    case (Some k)
    with i have "plane_after (fmt_planes fmt) k = Some (Some c')"
      by (auto simp: ubuf_pic_plane_iterate_def spec_mgr_def spec_iterate_def
          split: option.splits)
    from plane_after_left [OF assms(1) this] Some show ?thesis by simp
  qed
next
  show "(case None of None \<Rightarrow> length (fmt_planes fmt)
                    | Some k \<Rightarrow> planes_left (fmt_planes fmt) k) < fuel"
    using assms(2) by simp
qed

text \<open>The definitions that evaluate a copy on the example manager.\<close>

lemmas copy_eval =
  ubuf_pic_copy_def ubuf_pic_alloc_def ubuf_pic_plane_iterate_def copy_plane_def
  ubuf_pic_plane_write_def ubuf_pic_plane_read_def ubuf_pic_plane_unmap_def
  extract_offset_def extract_skip_def extract_size_def to_size_t_def
  spec_alloc_def spec_free_def spec_iterate_def spec_read_def spec_write_def spec_unmap_def
  spec_address_def Let_def

text \<open>
  C2. The claim gives the octets of a line as the overlap divided by the plane's
  subsampling and multiplied by the plane's macropixel size. The code divides by the
  macropixel of the picture as well (line 427): in the packed format, where a
  macropixel is two pixels in four octets, a copy of the whole picture of 4 by 2 pixels
  moves 8 octets per line, not \<open>4 / 1 * 4 = 16\<close>.
\<close>

theorem copy_width_counterexample:
  "ubuf_pic_plane_size (spec_mgr yuyv422) one_pic 0 ''y8u8y8v8'' = Some (8, 1, 1, 4)
   \<and> (\<exists>s'. ubuf_pic_copy (Suc (Suc 0)) (spec_mgr yuyv422) 0 0 0 4 2 one_pic
         = Returns (Some 1, s',
             [Ev_alloc 4 2 (Some 1),
              Ev_iterate 0 (Some (Some ''y8u8y8v8'')),
              Ev_write 1 ''y8u8y8v8'' 0 0 4 2 (Some 1048576),
              Ev_read 0 ''y8u8y8v8'' 0 0 4 2 (Some 0),
              Ev_memcpy 1048576 0 8,
              Ev_memcpy 1048584 8 8,
              Ev_unmap 1 ''y8u8y8v8'' 0 0 4 2 True,
              Ev_unmap 0 ''y8u8y8v8'' 0 0 4 2 True,
              Ev_iterate 0 (Some None)]))
   \<and> (8::nat) \<noteq> nat (4 div 1 * 4)"
  by (simp add: check_eval copy_eval copy_lines_numeral)

text \<open>
  C2, amended. Take a source whose extents fit an \<open>int\<close> and arguments whose resolved
  new sizes \<open>nh\<close> and \<open>nv\<close> are not negative. Whenever \<open>ubuf_pic_copy\<close> returns the new
  buffer, the allocation of \<open>nh\<close> by \<open>nv\<close> gave that buffer, and there is a list of
  planes that follows the iterator of the source from its start, in the state the
  allocation left, to an answer that names no plane, in the state the copy returns:
  every plane the iterator names is in the list, with the answers the manager gave for
  it. The calls of the copy are the allocation, then for each of these planes the
  calls of \<open>plane_transfer\<close> for the overlap of the specification, then the last answer
  of the iterator. So the destination starts at \<open>-skip\<close> and the source at 0 for a
  negative skip, otherwise at 0 and at the skip; the extent is the minimum of
  \<open>new_extent - dest_offset\<close> and \<open>source_extent - source_skip\<close>; and each plane has
  that region mapped and copied line by line, each side advancing by its own stride, a
  line being the extent divided by \<open>hsub\<close> and by the macropixel, times the macropixel
  size in octets.
\<close>

theorem copy_transfers_overlap:
  assumes "ubuf_pic_copy fuel mgr ubuf hskip vskip new_hsize new_vsize s
             = Returns (Some new_ubuf, s', ev)"
    and "ubuf_pic_size mgr s ubuf = Some (ubuf_hsize, ubuf_vsize, macropixel)"
    and "int ubuf_hsize \<le> INT_MAX" and "int ubuf_vsize \<le> INT_MAX"
    and "int ubuf_hsize - hskip \<le> INT_MAX" and "int ubuf_vsize - vskip \<le> INT_MAX"
    and "new_hsize \<le> INT_MAX" and "new_vsize \<le> INT_MAX"
    and "nh = (if new_hsize = - 1 then int ubuf_hsize - hskip else new_hsize)"
    and "nv = (if new_vsize = - 1 then int ubuf_vsize - vskip else new_vsize)"
    and "0 \<le> nh" and "0 \<le> nv"
  shows "\<exists>planes final.
           fst (ubuf_pic_alloc mgr nh nv s) = Some new_ubuf
           \<and> planes_follow mgr ubuf new_ubuf
               (overlap hskip vskip nh nv ubuf_hsize ubuf_vsize) None
               (snd (ubuf_pic_alloc mgr nh nv s)) planes final s'
           \<and> ev = Ev_alloc nh nv (Some new_ubuf)
                  # concat (map (plane_transfer ubuf new_ubuf macropixel
                                   (overlap hskip vskip nh nv ubuf_hsize ubuf_vsize)) planes)
                  @ [Ev_iterate ubuf final]"
proof -
  from assms(1) obtain nh' nv' uh uv m s1 ev' where
    c: "ubuf_pic_check_resize mgr s ubuf hskip vskip new_hsize new_vsize
          = Returns (True, hskip, vskip, nh', nv', Some (uh, uv, m))"
    and al: "ubuf_pic_alloc mgr nh' nv' s = (Some new_ubuf, s1)"
    and l: "copy_planes fuel mgr ubuf new_ubuf m
                \<lparr>ex_hoffset = extract_offset hskip, ex_voffset = extract_offset vskip,
                 ex_hskip = extract_skip hskip, ex_vskip = extract_skip vskip,
                 ex_hsize = extract_size hskip nh' uh,
                 ex_vsize = extract_size vskip nv' uv\<rparr> None s1
               = Returns (True, s', ev')"
    and e: "ev = Ev_alloc nh' nv' (Some new_ubuf) # ev'"
    by (rule copy_Some)
  have m0: "0 < macropixel"
    using c assms(2)
    by (cases "macropixel = 0")
       (auto simp: ubuf_pic_check_resize_def Let_def split: if_splits)
  have q: "ubuf_pic_check_resize mgr s ubuf hskip vskip new_hsize new_vsize =
     (if hskip \<le> int ubuf_hsize \<and> vskip \<le> int ubuf_vsize
         \<and> - hskip \<le> nh \<and> - vskip \<le> nv
         \<and> hskip mod int macropixel = 0 \<and> nh mod int macropixel = 0
      then Returns (True, hskip, vskip, nh, nv, Some (ubuf_hsize, ubuf_vsize, macropixel))
      else if hskip \<le> int ubuf_hsize \<and> vskip \<le> int ubuf_vsize
      then Returns (False, hskip, vskip, nh, nv, None)
      else Returns (False, hskip, vskip, new_hsize, new_vsize, None))"
    using assms(2) m0 assms(3-6,9,10) by (rule check_resize_eq)
  from c [unfolded q] have acc: "hskip \<le> int ubuf_hsize" "vskip \<le> int ubuf_vsize"
      "- hskip \<le> nh" "- vskip \<le> nv"
    and same: "nh' = nh" "nv' = nv" "uh = ubuf_hsize" "uv = ubuf_vsize" "m = macropixel"
    by (auto split: if_splits)
  have nhm: "nh \<le> INT_MAX" "nv \<le> INT_MAX"
    using assms(5-10) by (auto split: if_splits)
  have h: "extract_size hskip nh ubuf_hsize
             = min (nh - extract_offset hskip) (int ubuf_hsize - extract_skip hskip)"
    using acc assms(3,11) nhm
    by (intro extract_size_min) (auto simp: extract_offset_def extract_skip_def)
  have v: "extract_size vskip nv ubuf_vsize
             = min (nv - extract_offset vskip) (int ubuf_vsize - extract_skip vskip)"
    using acc assms(4,12) nhm
    by (intro extract_size_min) (auto simp: extract_offset_def extract_skip_def)
  have g: "\<lparr>ex_hoffset = extract_offset hskip, ex_voffset = extract_offset vskip,
            ex_hskip = extract_skip hskip, ex_vskip = extract_skip vskip,
            ex_hsize = extract_size hskip nh ubuf_hsize,
            ex_vsize = extract_size vskip nv ubuf_vsize\<rparr>
           = overlap hskip vskip nh nv ubuf_hsize ubuf_vsize"
    unfolding h v by (simp add: overlap_def extract_offset_def extract_skip_def)
  have nn: "0 \<le> ex_hoffset (overlap hskip vskip nh nv ubuf_hsize ubuf_vsize)"
      "0 \<le> ex_voffset (overlap hskip vskip nh nv ubuf_hsize ubuf_vsize)"
      "0 \<le> ex_hskip (overlap hskip vskip nh nv ubuf_hsize ubuf_vsize)"
      "0 \<le> ex_vskip (overlap hskip vskip nh nv ubuf_hsize ubuf_vsize)"
      "0 \<le> ex_hsize (overlap hskip vskip nh nv ubuf_hsize ubuf_vsize)"
      "0 \<le> ex_vsize (overlap hskip vskip nh nv ubuf_hsize ubuf_vsize)"
    using acc assms(11,12) by (auto simp: overlap_def)
  from l have "copy_planes fuel mgr ubuf new_ubuf macropixel
                 (overlap hskip vskip nh nv ubuf_hsize ubuf_vsize) None s1
               = Returns (True, s', ev')"
    unfolding same g .
  from copy_planes_True [OF this nn] obtain planes final where
    f: "planes_follow mgr ubuf new_ubuf
          (overlap hskip vskip nh nv ubuf_hsize ubuf_vsize) None s1 planes final s'"
    and t: "ev' = concat (map (plane_transfer ubuf new_ubuf macropixel
                          (overlap hskip vskip nh nv ubuf_hsize ubuf_vsize)) planes)
           @ [Ev_iterate ubuf final]"
    by blast
  from al same have a: "fst (ubuf_pic_alloc mgr nh nv s) = Some new_ubuf"
      "snd (ubuf_pic_alloc mgr nh nv s) = s1"
    by simp_all
  from f t e same a show ?thesis
    by (intro exI [of _ planes] exI [of _ final]) simp
qed

text \<open>
  An example: the picture of 4 by 2 pixels in the packed format is copied to a new
  buffer of 6 by 2 pixels that starts 2 pixels before it. The overlap is the whole
  source, placed 2 pixels into the destination. The iterator names one plane, so the
  list has one plane: its two lines of 8 octets are copied, the source advancing by
  its stride of 8 octets and the destination by its stride of 12.
\<close>

theorem copy_transfers_overlap_witness:
  "ubuf_pic_size (spec_mgr yuyv422) one_pic 0 = Some (4, 2, 2)
   \<and> overlap (- 2) 0 6 2 4 2
       = \<lparr>ex_hoffset = 2, ex_voffset = 0, ex_hskip = 0, ex_vskip = 0,
          ex_hsize = 4, ex_vsize = 2\<rparr>
   \<and> (\<exists>s'. ubuf_pic_copy (Suc (Suc 0)) (spec_mgr yuyv422) 0 (- 2) 0 6 2 one_pic
           = Returns (Some 1, s',
               [Ev_alloc 6 2 (Some 1),
                Ev_iterate 0 (Some (Some ''y8u8y8v8'')),
                Ev_write 1 ''y8u8y8v8'' 2 0 4 2 (Some 1048580),
                Ev_read 0 ''y8u8y8v8'' 0 0 4 2 (Some 0),
                Ev_memcpy 1048580 0 8,
                Ev_memcpy 1048592 8 8,
                Ev_unmap 1 ''y8u8y8v8'' 2 0 4 2 True,
                Ev_unmap 0 ''y8u8y8v8'' 0 0 4 2 True,
                Ev_iterate 0 (Some None)])
         \<and> fst (ubuf_pic_alloc (spec_mgr yuyv422) 6 2 one_pic) = Some 1
         \<and> planes_follow (spec_mgr yuyv422) 0 1 (overlap (- 2) 0 6 2 4 2) None
             (snd (ubuf_pic_alloc (spec_mgr yuyv422) 6 2 one_pic))
             [\<lparr>pc_chroma = ''y8u8y8v8'',
               pc_state = snd (ubuf_pic_alloc (spec_mgr yuyv422) 6 2 one_pic),
               pc_stride = 8, pc_new_stride = 12, pc_hsub = 1, pc_vsub = 1,
               pc_macropixel_size = 4, pc_buffer = 0, pc_new_buffer = 1048580\<rparr>]
             (Some None) s'
         \<and> [Ev_alloc 6 2 (Some 1),
             Ev_iterate 0 (Some (Some ''y8u8y8v8'')),
             Ev_write 1 ''y8u8y8v8'' 2 0 4 2 (Some 1048580),
             Ev_read 0 ''y8u8y8v8'' 0 0 4 2 (Some 0),
             Ev_memcpy 1048580 0 8,
             Ev_memcpy 1048592 8 8,
             Ev_unmap 1 ''y8u8y8v8'' 2 0 4 2 True,
             Ev_unmap 0 ''y8u8y8v8'' 0 0 4 2 True,
             Ev_iterate 0 (Some None)]
           = Ev_alloc 6 2 (Some 1)
             # concat (map (plane_transfer 0 1 2 (overlap (- 2) 0 6 2 4 2))
                 [\<lparr>pc_chroma = ''y8u8y8v8'',
                   pc_state = snd (ubuf_pic_alloc (spec_mgr yuyv422) 6 2 one_pic),
                   pc_stride = 8, pc_new_stride = 12, pc_hsub = 1, pc_vsub = 1,
                   pc_macropixel_size = 4, pc_buffer = 0, pc_new_buffer = 1048580\<rparr>])
             @ [Ev_iterate 0 (Some None)])"
proof -
  let ?ex = "overlap (- 2) 0 6 2 4 2"
  let ?s1 = "snd (ubuf_pic_alloc (spec_mgr yuyv422) 6 2 one_pic)"
  let ?p = "\<lparr>pc_chroma = ''y8u8y8v8'', pc_state = ?s1,
             pc_stride = 8, pc_new_stride = 12, pc_hsub = 1, pc_vsub = 1,
             pc_macropixel_size = 4, pc_buffer = 0, pc_new_buffer = 1048580\<rparr>"
  let ?ev = "[Ev_alloc 6 2 (Some 1),
              Ev_iterate 0 (Some (Some ''y8u8y8v8'')),
              Ev_write 1 ''y8u8y8v8'' 2 0 4 2 (Some 1048580),
              Ev_read 0 ''y8u8y8v8'' 0 0 4 2 (Some 0),
              Ev_memcpy 1048580 0 8,
              Ev_memcpy 1048592 8 8,
              Ev_unmap 1 ''y8u8y8v8'' 2 0 4 2 True,
              Ev_unmap 0 ''y8u8y8v8'' 0 0 4 2 True,
              Ev_iterate 0 (Some None)]"
  have sz: "ubuf_pic_size (spec_mgr yuyv422) one_pic 0 = Some (4, 2, 2)"
    by (simp add: check_eval)
  have ov: "?ex = \<lparr>ex_hoffset = 2, ex_voffset = 0, ex_hskip = 0, ex_vskip = 0,
                   ex_hsize = 4, ex_vsize = 2\<rparr>"
    by (simp add: overlap_def)
  have "\<exists>s'. ubuf_pic_copy (Suc (Suc 0)) (spec_mgr yuyv422) 0 (- 2) 0 6 2 one_pic
           = Returns (Some 1, s', ?ev)"
    by (simp add: check_eval copy_eval copy_lines_numeral)
  then obtain s' where
    c: "ubuf_pic_copy (Suc (Suc 0)) (spec_mgr yuyv422) 0 (- 2) 0 6 2 one_pic
           = Returns (Some 1, s', ?ev)"
    by (elim exE)
  have "\<exists>planes final.
           fst (ubuf_pic_alloc (spec_mgr yuyv422) 6 2 one_pic) = Some 1
           \<and> planes_follow (spec_mgr yuyv422) 0 1 ?ex None ?s1 planes final s'
           \<and> ?ev = Ev_alloc 6 2 (Some 1)
                  # concat (map (plane_transfer 0 1 2 ?ex) planes)
                  @ [Ev_iterate 0 final]"
    by (rule copy_transfers_overlap [OF c sz]) (simp_all add: INT_MAX_def)
  then obtain planes final where
    a: "fst (ubuf_pic_alloc (spec_mgr yuyv422) 6 2 one_pic) = Some 1"
    and f: "planes_follow (spec_mgr yuyv422) 0 1 ?ex None ?s1 planes final s'"
    and e: "?ev = Ev_alloc 6 2 (Some 1)
                  # concat (map (plane_transfer 0 1 2 ?ex) planes)
                  @ [Ev_iterate 0 final]"
    by (elim exE conjE)
  have "planes_follow (spec_mgr yuyv422) 0 1 ?ex None ?s1 [?p] (Some None)
          (snd (plane_calls (spec_mgr yuyv422) 0 1 ?ex ?p))"
    by (simp add: ov plane_answers_def plane_calls_def check_eval copy_eval)
  from planes_follow_unique [OF f this] have u: "planes = [?p]" "final = Some None"
    by simp_all
  from sz ov c a f [unfolded u] e [unfolded u] show ?thesis
    by (intro conjI exI [of _ s'])
qed

text \<open>
  C4. The claim: whenever a step of \<open>ubuf_pic_copy\<close> fails after the allocation, the
  new buffer is released and \<open>NULL\<close> is returned. The loop condition (line 392) treats
  an error of \<open>ubuf_pic_plane_iterate\<close> like the end of the planes: with a manager whose
  iterator fails after the first of three planes, the copy returns the new buffer, of
  which only the plane \<open>y8\<close> was copied, and does not release it.
\<close>

theorem copy_returns_buffer_after_iterate_error:
  "\<exists>s'. ubuf_pic_copy (Suc (Suc 0)) (iterate_fails_mgr yuv420p) 0 0 0 4 2 one_pic
          = Returns (Some 1, s',
              [Ev_alloc 4 2 (Some 1),
               Ev_iterate 0 (Some (Some ''y8'')),
               Ev_write 1 ''y8'' 0 0 4 2 (Some 1048576),
               Ev_read 0 ''y8'' 0 0 4 2 (Some 0),
               Ev_memcpy 1048576 0 4,
               Ev_memcpy 1048580 4 4,
               Ev_unmap 1 ''y8'' 0 0 4 2 True,
               Ev_unmap 0 ''y8'' 0 0 4 2 True,
               Ev_iterate 0 None])
        \<and> pics s' 1 \<noteq> None"
  by (simp add: check_eval copy_eval copy_lines_numeral iterate_fails_mgr_def)

section \<open>Replacing a buffer\<close>

text \<open>
  C3. For every manager, handle and arguments: if the copy inside \<open>ubuf_pic_replace\<close>
  returns \<open>NULL\<close>, the replacement returns \<open>false\<close>, leaves the original address in
  \<open>*ubuf_p\<close>, and changes and calls nothing beyond what the copy did; if the copy
  returns a new buffer, the replacement returns \<open>true\<close>, leaves the new address in
  \<open>*ubuf_p\<close>, and releases the original as its final call. When the allocator, called
  in the state \<open>s\<close>, does not hand out the address of the original, the copy itself
  made no call that releases the original, so the original is not released in the
  first case and released exactly once in the second.
\<close>

theorem replace_all_or_nothing:
  "(\<forall>s' ev. ubuf_pic_copy fuel mgr ubuf hskip vskip new_hsize new_vsize s
                    = Returns (None, s', ev) \<longrightarrow>
      ubuf_pic_replace fuel mgr ubuf hskip vskip new_hsize new_vsize s
        = Returns (False, ubuf, s', ev)
      \<and> ((\<forall>hsize vsize. fst (alloc_picture mgr hsize vsize s) \<noteq> Some ubuf)
           \<longrightarrow> Ev_free ubuf \<notin> set ev))
   \<and> (\<forall>new_ubuf s' ev. ubuf_pic_copy fuel mgr ubuf hskip vskip new_hsize new_vsize s
                    = Returns (Some new_ubuf, s', ev) \<longrightarrow>
      ubuf_pic_replace fuel mgr ubuf hskip vskip new_hsize new_vsize s
        = Returns (True, new_ubuf, free_ubuf mgr ubuf s', ev @ [Ev_free ubuf])
      \<and> ((\<forall>hsize vsize. fst (alloc_picture mgr hsize vsize s) \<noteq> Some ubuf)
           \<longrightarrow> Ev_free ubuf \<notin> set ev \<and> new_ubuf \<noteq> ubuf))"
proof (intro conjI allI impI)
  fix s' ev
  assume c: "ubuf_pic_copy fuel mgr ubuf hskip vskip new_hsize new_vsize s
               = Returns (None, s', ev)"
  show "ubuf_pic_replace fuel mgr ubuf hskip vskip new_hsize new_vsize s
          = Returns (False, ubuf, s', ev)"
    by (simp add: ubuf_pic_replace_def c)
  assume "\<forall>hsize vsize. fst (alloc_picture mgr hsize vsize s) \<noteq> Some ubuf"
  then show "Ev_free ubuf \<notin> set ev"
    using copy_alone [OF c] by (simp add: leaves_alone_not_freed)
next
  fix new_ubuf s' ev
  assume c: "ubuf_pic_copy fuel mgr ubuf hskip vskip new_hsize new_vsize s
               = Returns (Some new_ubuf, s', ev)"
  show "ubuf_pic_replace fuel mgr ubuf hskip vskip new_hsize new_vsize s
          = Returns (True, new_ubuf, free_ubuf mgr ubuf s', ev @ [Ev_free ubuf])"
    by (simp add: ubuf_pic_replace_def c)
  assume f: "\<forall>hsize vsize. fst (alloc_picture mgr hsize vsize s) \<noteq> Some ubuf"
  then show "Ev_free ubuf \<notin> set ev"
    using copy_alone [OF c] by (simp add: leaves_alone_not_freed)
  from f show "new_ubuf \<noteq> ubuf"
    using copy_alone [OF c] by simp
qed

theorem replace_all_or_nothing_witness:
  "(\<exists>s' ev. ubuf_pic_copy (Suc (Suc 0)) (spec_mgr yuyv422) 0 0 0 4 2 busy_pic
               = Returns (None, s', ev)
            \<and> ev \<noteq> []
            \<and> ubuf_pic_replace (Suc (Suc 0)) (spec_mgr yuyv422) 0 0 0 4 2 busy_pic
               = Returns (False, 0, s', ev)
            \<and> Ev_free 0 \<notin> set ev)
   \<and> (\<exists>s' ev. ubuf_pic_copy (Suc (Suc 0)) (spec_mgr yuyv422) 0 0 0 4 2 one_pic
               = Returns (Some 1, s', ev)
            \<and> ubuf_pic_replace (Suc (Suc 0)) (spec_mgr yuyv422) 0 0 0 4 2 one_pic
               = Returns (True, 1, free_ubuf (spec_mgr yuyv422) 0 s', ev @ [Ev_free 0])
            \<and> Ev_free 0 \<notin> set ev)"
proof -
  have f1: "fst (alloc_picture (spec_mgr yuyv422) hsize vsize busy_pic) \<noteq> Some 0"
    for hsize vsize
    by (simp add: spec_mgr_def spec_alloc_def busy_pic_def)
  have f2: "fst (alloc_picture (spec_mgr yuyv422) hsize vsize one_pic) \<noteq> Some 0"
    for hsize vsize
    by (simp add: spec_mgr_def spec_alloc_def one_pic_def)
  have "\<exists>s' ev. ubuf_pic_copy (Suc (Suc 0)) (spec_mgr yuyv422) 0 0 0 4 2 busy_pic
           = Returns (None, s', ev) \<and> ev \<noteq> []"
    by (simp add: check_eval copy_eval copy_lines_numeral busy_pic_def)
  then obtain s1 ev1 where
    c1: "ubuf_pic_copy (Suc (Suc 0)) (spec_mgr yuyv422) 0 0 0 4 2 busy_pic
           = Returns (None, s1, ev1)" and n1: "ev1 \<noteq> []"
    by (elim exE conjE)
  have "\<exists>s' ev. ubuf_pic_copy (Suc (Suc 0)) (spec_mgr yuyv422) 0 0 0 4 2 one_pic
           = Returns (Some 1, s', ev)"
    by (simp add: check_eval copy_eval copy_lines_numeral)
  then obtain s2 ev2 where
    c2: "ubuf_pic_copy (Suc (Suc 0)) (spec_mgr yuyv422) 0 0 0 4 2 one_pic
           = Returns (Some 1, s2, ev2)"
    by (elim exE)
  from replace_all_or_nothing [of "Suc (Suc 0)" "spec_mgr yuyv422" 0 0 0 4 2 busy_pic]
    c1 n1 f1
  have a: "\<exists>s' ev. ubuf_pic_copy (Suc (Suc 0)) (spec_mgr yuyv422) 0 0 0 4 2 busy_pic
               = Returns (None, s', ev)
            \<and> ev \<noteq> []
            \<and> ubuf_pic_replace (Suc (Suc 0)) (spec_mgr yuyv422) 0 0 0 4 2 busy_pic
               = Returns (False, 0, s', ev)
            \<and> Ev_free 0 \<notin> set ev"
    by blast
  from replace_all_or_nothing [of "Suc (Suc 0)" "spec_mgr yuyv422" 0 0 0 4 2 one_pic]
    c2 f2
  have b: "\<exists>s' ev. ubuf_pic_copy (Suc (Suc 0)) (spec_mgr yuyv422) 0 0 0 4 2 one_pic
               = Returns (Some 1, s', ev)
            \<and> ubuf_pic_replace (Suc (Suc 0)) (spec_mgr yuyv422) 0 0 0 4 2 one_pic
               = Returns (True, 1, free_ubuf (spec_mgr yuyv422) 0 s', ev @ [Ev_free 0])
            \<and> Ev_free 0 \<notin> set ev"
    by blast
  from a b show ?thesis by (rule conjI)
qed

end
